theory Spec2Isabelle
  imports Main "HOL-Library.Word"
begin

unbundle bit_operations_syntax

section \<open>Wire codec (core/packet.go, core CRC32)\<close>

type_synonym byte = "8 word"

text \<open>
  Go reports failures as \<open>errors.New\<close> strings; each distinct message is one
  constructor. \<open>Panic\<close> stands for a Go run-time panic (slice or index out of range,
  nil dereference), \<open>IOError\<close> for an error handed up by the socket.
\<close>

datatype error =
    PayloadTooLarge          \<comment> \<open>"payload too large (max 65535 bytes)"\<close>
  | HeaderBufferTooSmall     \<comment> \<open>"header buffer too small"\<close>
  | Truncated                \<comment> \<open>"data too short for packet"\<close>
  | BadMagic                 \<comment> \<open>"invalid magic number"\<close>
  | BadVersion               \<comment> \<open>"invalid version"\<close>
  | LengthOverflow           \<comment> \<open>"payload length exceeds available data"\<close>
  | CrcMismatch              \<comment> \<open>"CRC32 mismatch"\<close>
  | MTUTooSmall              \<comment> \<open>"MTU too small for fragmentation"\<close>
  | TooManyFragments         \<comment> \<open>"too many fragments required"\<close>
  | InvalidFragId            \<comment> \<open>"invalid fragment ID"\<close>
  | NotAllFragments          \<comment> \<open>"not all fragments received"\<close>
  | MissingFragment          \<comment> \<open>"missing fragment"\<close>
  | WindowFull               \<comment> \<open>"send window full"\<close>
  | NotInitialized           \<comment> \<open>"not initialized"\<close>
  | NoKey                    \<comment> \<open>"encryption enabled but key not set"\<close>
  | BadConnType              \<comment> \<open>"invalid connection type for TCP/UDP"\<close>
  | UnsupportedProto         \<comment> \<open>"unsupported protocol"\<close>
  | TimestampConversion      \<comment> \<open>"timestamp conversion failed"\<close>
  | Eof                      \<comment> \<open>\<open>io.EOF\<close>\<close>
  | IOError nat              \<comment> \<open>any other error of the socket or of a library call\<close>
  | Panic

record PacketHeader =
  Magic :: "16 word"
  Version :: "8 word"
  Flags :: "8 word"
  Opcode :: "8 word"
  Proto :: "8 word"
  StreamID :: "32 word"
  Seq :: "32 word"
  FragID :: "16 word"
  TotalFrags :: "16 word"
  PayloadLen :: "16 word"
  Timestamp :: "32 word"
  CRC32 :: "32 word"

definition HeaderSize :: nat where "HeaderSize = 24"

definition FlagFragment :: "8 word" where "FlagFragment = 0x01"
definition FlagCompressed :: "8 word" where "FlagCompressed = 0x02"
definition FlagEncrypted :: "8 word" where "FlagEncrypted = 0x04"
definition FlagReliable :: "8 word" where "FlagReliable = 0x08"
definition FlagACK :: "8 word" where "FlagACK = 0x10"

definition OpData :: "8 word" where "OpData = 0x01"
definition OpACK :: "8 word" where "OpACK = 0x03"
definition ProtoTCP :: "8 word" where "ProtoTCP = 0x01"
definition ProtoUDP :: "8 word" where "ProtoUDP = 0x02"

subsection \<open>CRC32\<close>

text \<open>One round of the inner loop of \<open>initCRC32Table\<close>.\<close>

definition crcShift :: "32 word \<Rightarrow> 32 word" where
  "crcShift crc = (if crc AND 1 \<noteq> 0 then drop_bit 1 crc XOR 0xEDB88320 else drop_bit 1 crc)"

text \<open>
  \<open>crc32Table[i]\<close>: eight rounds starting from \<open>uint32(i)\<close>. The Go table is filled
  once by \<open>initCRC32Table\<close>, which \<open>NewCRC32\<close> calls before any lookup.
\<close>

definition crc32Table :: "8 word \<Rightarrow> 32 word" where
  "crc32Table i = (crcShift ^^ 8) (ucast i)"

definition NewCRC32 :: "32 word" where
  "NewCRC32 = 0xFFFFFFFF"

definition crcByte :: "32 word \<Rightarrow> byte \<Rightarrow> 32 word" where
  "crcByte crc b = drop_bit 8 crc XOR crc32Table (ucast ((crc XOR ucast b) AND 0xFF))"

definition Update :: "32 word \<Rightarrow> byte list \<Rightarrow> 32 word" where
  "Update crc data = foldl crcByte crc data"

definition Final :: "32 word \<Rightarrow> 32 word" where
  "Final crc = crc XOR 0xFFFFFFFF"

definition ComputeCRC32 :: "byte list \<Rightarrow> 32 word" where
  "ComputeCRC32 data = Final (Update NewCRC32 data)"

subsection \<open>Big-endian fields\<close>

text \<open>\<open>binary.BigEndian.PutUint16\<close> and \<open>PutUint32\<close>, as the bytes written.\<close>

definition PutUint16 :: "16 word \<Rightarrow> byte list" where
  "PutUint16 v = [ucast (drop_bit 8 v), ucast v]"

definition PutUint32 :: "32 word \<Rightarrow> byte list" where
  "PutUint32 v = [ucast (drop_bit 24 v), ucast (drop_bit 16 v), ucast (drop_bit 8 v), ucast v]"

text \<open>
  \<open>binary.BigEndian.Uint16(b[i:])\<close> and \<open>Uint32\<close>. Every call site in the model
  checks the length first, so the reads are in range.
\<close>

definition Uint16 :: "byte list \<Rightarrow> nat \<Rightarrow> 16 word" where
  "Uint16 b i = ucast (b ! (i + 1)) OR push_bit 8 (ucast (b ! i))"

definition Uint32 :: "byte list \<Rightarrow> nat \<Rightarrow> 32 word" where
  "Uint32 b i = ucast (b ! (i + 3)) OR push_bit 8 (ucast (b ! (i + 2)))
     OR push_bit 16 (ucast (b ! (i + 1))) OR push_bit 24 (ucast (b ! i))"

subsection \<open>Serialize and Deserialize\<close>

definition ValidateHeader :: "PacketHeader \<Rightarrow> error option" where
  "ValidateHeader hdr =
     (if Magic hdr \<noteq> 0xABCD then Some BadMagic
      else if Version hdr \<noteq> 0x01 then Some BadVersion
      else None)"

text \<open>
  The 24 header bytes as \<open>Serialize\<close> fills \<open>headerBuf\<close>: the word at offset 20 is
  written as zero, whatever \<open>Timestamp\<close> holds.
\<close>

definition headerBuf :: "PacketHeader \<Rightarrow> byte list" where
  "headerBuf hdr =
     PutUint16 (Magic hdr) @ [Version hdr, Flags hdr, Opcode hdr, Proto hdr]
     @ PutUint32 (StreamID hdr) @ PutUint32 (Seq hdr)
     @ PutUint16 (FragID hdr) @ PutUint16 (TotalFrags hdr) @ PutUint16 (PayloadLen hdr)
     @ PutUint32 0"

definition Serialize :: "PacketHeader \<Rightarrow> byte list \<Rightarrow> error + byte list" where
  "Serialize hdr payload =
     (if length payload > 65535 then Inl PayloadTooLarge
      else if length (headerBuf hdr) < HeaderSize then Inl HeaderBufferTooSmall
      else
        let crc32Value = Final (Update (Update NewCRC32 (headerBuf hdr)) payload)
        in Inr (headerBuf hdr @ payload @ PutUint32 crc32Value))"

definition Deserialize :: "byte list \<Rightarrow> error + (PacketHeader \<times> byte list)" where
  "Deserialize data =
     (if length data < HeaderSize + 4 then Inl Truncated
      else
        let hdr = \<lparr> Magic = Uint16 data 0, Version = data ! 2, Flags = data ! 3,
                    Opcode = data ! 4, Proto = data ! 5,
                    StreamID = Uint32 data 6, Seq = Uint32 data 10,
                    FragID = Uint16 data 14, TotalFrags = Uint16 data 16,
                    PayloadLen = Uint16 data 18, Timestamp = Uint32 data 20,
                    CRC32 = 0 \<rparr>
        in case ValidateHeader hdr of
             Some e \<Rightarrow> Inl e
           | None \<Rightarrow>
               let payloadStart = HeaderSize;
                   payloadEnd = payloadStart + unat (PayloadLen hdr)
               in if int payloadEnd > int (length data) - 4 then Inl LengthOverflow
                  else
                    let payload = take (unat (PayloadLen hdr)) (drop payloadStart data);
                        crc32Received = Uint32 data (length data - 4);
                        crc32Computed =
                          Final (Update (Update NewCRC32 (take HeaderSize data)) payload)
                    in if crc32Received \<noteq> crc32Computed then Inl CrcMismatch
                       else Inr (hdr, payload))"

section \<open>Fragmenter (core/fragment.go)\<close>

definition FragMaxFragments :: nat where "FragMaxFragments = 256"

text \<open>
  \<open>Fragments\<close> is the Go array \<open>[256][]byte\<close>: a list of 256 slots, \<open>None\<close> for
  a \<open>nil\<close> slice. \<open>fcHeader\<close> is the \<open>*PacketHeader\<close> field, \<open>None\<close> for \<open>nil\<close>.
  Times are nanosecond counts.
\<close>

record FragmentContext =
  fcStreamID :: "32 word"
  fcSeq :: "32 word"
  fcTotalFrags :: "16 word"
  ReceivedFrags :: "16 word"
  Fragments :: "byte list option list"
  FragSizes :: "16 word list"
  CreatedAt :: int
  fcHeader :: "PacketHeader option"
  TotalPayloadSize :: "64 word"
  ReceivedPayloadSize :: "64 word"

definition NewFragmentContext :: "32 word \<Rightarrow> 32 word \<Rightarrow> 16 word \<Rightarrow> int \<Rightarrow> FragmentContext" where
  "NewFragmentContext streamID seq totalFrags now =
     \<lparr> fcStreamID = streamID, fcSeq = seq, fcTotalFrags = totalFrags, ReceivedFrags = 0,
       Fragments = replicate 256 None, FragSizes = replicate 256 0, CreatedAt = now,
       fcHeader = None, TotalPayloadSize = 0, ReceivedPayloadSize = 0 \<rparr>"

text \<open>
  \<open>AddFragment\<close> returns its result together with the context as the call leaves it.
  An index beyond the 256 slots is a Go run-time panic.
\<close>

definition AddFragment ::
  "FragmentContext \<Rightarrow> 16 word \<Rightarrow> PacketHeader \<Rightarrow> byte list \<Rightarrow> (error + bool) \<times> FragmentContext" where
  "AddFragment ctx fragID hdr data =
     (if fragID \<ge> fcTotalFrags ctx then (Inl InvalidFragId, ctx)
      else if unat fragID \<ge> length (Fragments ctx) then (Inl Panic, ctx)
      else if Fragments ctx ! unat fragID \<noteq> None then (Inr False, ctx)
      else
        let ctx1 = ctx\<lparr> Fragments := (Fragments ctx)[unat fragID := Some data],
                        FragSizes := (FragSizes ctx)[unat fragID := of_nat (length data)],
                        ReceivedFrags := ReceivedFrags ctx + 1,
                        ReceivedPayloadSize := ReceivedPayloadSize ctx + of_nat (length data) \<rparr>;
            ctx2 = (if fragID = 0 then ctx1\<lparr> fcHeader := Some hdr \<rparr> else ctx1)
        in if ReceivedFrags ctx2 = fcTotalFrags ctx2 then (Inr True, ctx2)
           else (Inr False, ctx2))"

text \<open>The two loops of \<open>Assemble\<close> over \<open>i = 0 .. TotalFrags - 1\<close>.\<close>

fun checkFragments :: "byte list option list \<Rightarrow> nat list \<Rightarrow> error option" where
  "checkFragments fr [] = None"
| "checkFragments fr (i # is) =
     (if i \<ge> length fr then Some Panic
      else if fr ! i = None then Some MissingFragment
      else checkFragments fr is)"

fun appendFragments :: "byte list option list \<Rightarrow> nat list \<Rightarrow> byte list \<Rightarrow> byte list" where
  "appendFragments fr [] payload = payload"
| "appendFragments fr (i # is) payload =
     appendFragments fr is (payload @ (case fr ! i of None \<Rightarrow> [] | Some d \<Rightarrow> d))"

definition Assemble :: "FragmentContext \<Rightarrow> error + (PacketHeader \<times> byte list)" where
  "Assemble ctx =
     (if ReceivedFrags ctx \<noteq> fcTotalFrags ctx then Inl NotAllFragments
      else case checkFragments (Fragments ctx) [0..<unat (fcTotalFrags ctx)] of
             Some e \<Rightarrow> Inl e
           | None \<Rightarrow>
               let payload = appendFragments (Fragments ctx) [0..<unat (fcTotalFrags ctx)] []
               in case fcHeader ctx of
                    None \<Rightarrow> Inl Panic
                  | Some h \<Rightarrow>
                      Inr (h\<lparr> Flags := Flags h AND NOT FlagFragment, FragID := 0,
                              TotalFrags := 0, PayloadLen := of_nat (length payload) \<rparr>,
                           payload))"

text \<open>
  One iteration of the loop of \<open>FragmentPacket\<close>. \<open>mtu\<close>, sizes and offsets are Go
  \<open>uint\<close> (64 bits); the slice expression panics when its bounds are out of range.
\<close>

definition fragmentAt ::
  "PacketHeader \<Rightarrow> byte list \<Rightarrow> 64 word \<Rightarrow> 64 word \<Rightarrow> 64 word \<Rightarrow> 16 word
     \<Rightarrow> error + (byte list \<times> PacketHeader)" where
  "fragmentAt hdr payload maxFragPayload payloadSize totalFrags i =
     (let offset = ucast i * maxFragPayload;
          fragSize = (if offset + maxFragPayload > payloadSize then payloadSize - offset
                      else maxFragPayload);
          fragHeader = hdr\<lparr> Flags := Flags hdr OR FlagFragment, FragID := i,
                            TotalFrags := ucast totalFrags, PayloadLen := ucast fragSize \<rparr>
      in if \<not> (offset \<le> offset + fragSize \<and> unat (offset + fragSize) \<le> length payload)
         then Inl Panic
         else case Serialize fragHeader (take (unat fragSize) (drop (unat offset) payload)) of
                Inl e \<Rightarrow> Inl e
              | Inr serialized \<Rightarrow> Inr (serialized, fragHeader))"

fun fragLoop ::
  "PacketHeader \<Rightarrow> byte list \<Rightarrow> 64 word \<Rightarrow> 64 word \<Rightarrow> 64 word \<Rightarrow> nat list
     \<Rightarrow> byte list list \<Rightarrow> PacketHeader list \<Rightarrow> error + (byte list list \<times> PacketHeader list)" where
  "fragLoop hdr payload mfp ps tf [] fragments headers = Inr (fragments, headers)"
| "fragLoop hdr payload mfp ps tf (i # is) fragments headers =
     (case fragmentAt hdr payload mfp ps tf (of_nat i) of
        Inl e \<Rightarrow> Inl e
      | Inr (serialized, fragHeader) \<Rightarrow>
          fragLoop hdr payload mfp ps tf is (fragments @ [serialized]) (headers @ [fragHeader]))"

text \<open>
  \<open>FragmentPacket\<close>: \<open>Inr None\<close> is the \<open>nil, nil, nil\<close> return (no fragmentation
  needed). The loop counter is a \<open>uint16\<close> running below \<open>uint16(totalFrags)\<close>.
\<close>

definition FragmentPacket ::
  "PacketHeader \<Rightarrow> byte list \<Rightarrow> 64 word
     \<Rightarrow> error + (byte list list \<times> PacketHeader list) option" where
  "FragmentPacket hdr payload mtu =
     (let maxFragPayload = mtu - 24 - 4
      in if maxFragPayload \<le> 0 then Inl MTUTooSmall
         else
           let payloadSize = (of_nat (length payload) :: 64 word)
           in if payloadSize \<le> maxFragPayload then Inr None
              else
                let totalFrags = (payloadSize + maxFragPayload - 1) div maxFragPayload
                in if totalFrags > 256 then Inl TooManyFragments
                   else case fragLoop hdr payload maxFragPayload payloadSize totalFrags
                               [0..<unat (ucast totalFrags :: 16 word)] [] [] of
                          Inl e \<Rightarrow> Inl e
                        | Inr r \<Rightarrow> Inr (Some r))"

section \<open>Reliable UDP (\<open>ReliableContext\<close>, package transport)\<close>

definition WindowSize :: "32 word" where "WindowSize = 32"
definition MaxCwnd :: "32 word" where "MaxCwnd = 32"
definition FastRetransmitThreshold :: "32 word" where "FastRetransmitThreshold = 3"

datatype PacketState = StateEmpty | StateSent | StateACKed | StateRetransmit

record WindowSlot =
  wsHeader :: "PacketHeader option"
  Data :: "byte list"
  Serialized :: "byte list"
  State :: PacketState
  SentAt :: int
  RetryCount :: "32 word"

record RTTStats =
  SRTT :: "32 word"
  RTTVar :: "32 word"
  RTO :: "32 word"
  SamplesCount :: "64 word"

text \<open>
  The socket and the peer address are not part of the state: every datagram handed to
  \<open>WriteToUDP\<close> is returned by the operation that writes it. \<open>sendWindow\<close> and
  \<open>recvWindow\<close> are the 32-element arrays.
\<close>

record ReliableContext =
  sendWindow :: "WindowSlot list"
  sendBase :: "32 word"
  nextSeq :: "32 word"
  windowSize :: "32 word"
  recvBase :: "32 word"
  recvWindow :: "bool list"
  rtt :: RTTStats
  cwnd :: "32 word"
  ssthresh :: "32 word"
  dupACKCount :: "32 word"
  lastACKSeq :: "32 word"
  inSlowStart :: bool

text \<open>The zero value \<open>WindowSlot{}\<close>.\<close>

definition emptySlot :: WindowSlot where
  "emptySlot = \<lparr> wsHeader = None, Data = [], Serialized = [], State = StateEmpty,
                  SentAt = 0, RetryCount = 0 \<rparr>"


definition getWindowIndex :: "32 word \<Rightarrow> nat" where
  "getWindowIndex seq = unat (seq mod WindowSize)"

definition isInSendWindow :: "ReliableContext \<Rightarrow> 32 word \<Rightarrow> bool" where
  "isInSendWindow ctx seq =
     (if sendBase ctx \<le> seq \<and> seq < sendBase ctx + windowSize ctx then True
      else if sendBase ctx + windowSize ctx < sendBase ctx
           then seq \<ge> sendBase ctx \<or> seq < sendBase ctx + windowSize ctx
      else False)"


text \<open>\<open>Duration.Milliseconds\<close>: integer division truncating towards zero.\<close>

definition Milliseconds :: "int \<Rightarrow> int" where
  "Milliseconds d = sgn d * (\<bar>d\<bar> div 1000000)"

definition updateRTT :: "ReliableContext \<Rightarrow> 32 word \<Rightarrow> ReliableContext" where
  "updateRTT ctx r =
     (let st = rtt ctx;
          st1 = (if SamplesCount st = 0 then st\<lparr> SRTT := r, RTTVar := r div 2 \<rparr>
                 else
                   let delta = (if r > SRTT st then r - SRTT st else SRTT st - r)
                   in st\<lparr> RTTVar := (3 * RTTVar st + delta) div 4,
                          SRTT := (7 * SRTT st + r) div 8 \<rparr>)
      in ctx\<lparr> rtt := st1\<lparr> RTO := SRTT st1 + 4 * RTTVar st1,
                            SamplesCount := SamplesCount st1 + 1 \<rparr> \<rparr>)"

text \<open>
  \<open>updateCongestionWindow\<close>; the integer division \<open>1 / cwnd\<close> panics when \<open>cwnd\<close>
  is zero.
\<close>

definition updateCongestionWindow :: "ReliableContext \<Rightarrow> ReliableContext option" where
  "updateCongestionWindow ctx =
     (if inSlowStart ctx then
        let c1 = ctx\<lparr> cwnd := cwnd ctx + 1 \<rparr>;
            c2 = (if cwnd c1 \<ge> ssthresh c1 then c1\<lparr> inSlowStart := False \<rparr> else c1)
        in Some (if cwnd c2 > MaxCwnd then c2\<lparr> cwnd := MaxCwnd \<rparr> else c2)
      else if cwnd ctx = 0 then None
      else
        let c1 = ctx\<lparr> cwnd := cwnd ctx + 1 div cwnd ctx \<rparr>
        in Some (if cwnd c1 > MaxCwnd then c1\<lparr> cwnd := MaxCwnd \<rparr> else c1))"

text \<open>The loop at the end of \<open>ProcessACK\<close> that slides \<open>sendBase\<close> over ACKed slots.\<close>

function advanceSendBase :: "ReliableContext \<Rightarrow> ReliableContext" where
  "advanceSendBase ctx =
     (if sendBase ctx < nextSeq ctx then
        (let baseIdx = getWindowIndex (sendBase ctx)
         in if State (sendWindow ctx ! baseIdx) = StateACKed
            then advanceSendBase (ctx\<lparr> sendWindow := (sendWindow ctx)[baseIdx := emptySlot],
                                       sendBase := sendBase ctx + 1 \<rparr>)
            else ctx)
      else ctx)"
  by pat_completeness auto
termination
proof (relation "measure (\<lambda>ctx. unat (nextSeq ctx) - unat (sendBase ctx))")
  show "wf (measure (\<lambda>ctx. unat (nextSeq ctx) - unat (sendBase ctx)))" by simp
next
  fix ctx :: ReliableContext and x :: nat
  assume lt: "sendBase ctx < nextSeq ctx"
  then have below: "unat (sendBase ctx) < unat (nextSeq ctx)"
    by (simp add: word_less_nat_alt)
  moreover have "unat (nextSeq ctx) < 2 ^ 32"
    using unsigned_less [of "nextSeq ctx", where ?'a = nat] by simp
  ultimately have "unat (sendBase ctx) + unat (1 :: 32 word) < 2 ^ LENGTH(32)"
    by simp
  then have "unat (sendBase ctx + 1) = unat (sendBase ctx) + unat (1 :: 32 word)"
    by (simp only: unat_add_lem)
  with below show
    "(ctx\<lparr> sendWindow := (sendWindow ctx)[x := emptySlot], sendBase := sendBase ctx + 1 \<rparr>, ctx)
       \<in> measure (\<lambda>ctx. unat (nextSeq ctx) - unat (sendBase ctx))"
    by simp
qed

text \<open>
  \<open>ProcessACK\<close>. The Go function always returns a nil error; \<open>Inl Panic\<close> is the
  division by zero inside \<open>updateCongestionWindow\<close>. Otherwise the result is the context
  after the call and the datagrams retransmitted by it.
\<close>

definition ProcessACK ::
  "ReliableContext \<Rightarrow> 32 word \<Rightarrow> int \<Rightarrow> error + (ReliableContext \<times> byte list list)" where
  "ProcessACK ctx ackSeq now =
     (if \<not> isInSendWindow ctx ackSeq then Inr (ctx, [])
      else
        let idx = getWindowIndex ackSeq;
            slot = sendWindow ctx ! idx
        in if State slot = StateEmpty \<or> State slot = StateACKed then Inr (ctx, [])
           else if ackSeq = lastACKSeq ctx then
             (let ctx1 = ctx\<lparr> dupACKCount := dupACKCount ctx + 1 \<rparr>
              in if dupACKCount ctx1 = FastRetransmitThreshold \<and> State slot = StateSent
                 then Inr (ctx1\<lparr> sendWindow :=
                                   (sendWindow ctx1)[idx := slot\<lparr> State := StateRetransmit \<rparr>] \<rparr>,
                           [Serialized slot])
                 else Inr (ctx1, []))
           else
             let ctx1 = ctx\<lparr> dupACKCount := 0, lastACKSeq := ackSeq \<rparr>;
                 ctx2 = (if RetryCount slot = 0 \<and> State slot = StateSent
                         then updateRTT ctx1 (word_of_int (Milliseconds (now - SentAt slot)))
                         else ctx1);
                 ctx3 = ctx2\<lparr> sendWindow := (sendWindow ctx2)[idx := slot\<lparr> State := StateACKed \<rparr>] \<rparr>
             in case updateCongestionWindow ctx3 of
                  None \<Rightarrow> Inl Panic
                | Some ctx4 \<Rightarrow> Inr (advanceSendBase ctx4, []))"

section \<open>TCP receive state machine (transport/tcp.go)\<close>

datatype TCPRecvState =
  StateIdle | StateReadingHeader | StateReadingPayload | StateReadingCRC | StateReady

record TCPConnection =
  recvState :: TCPRecvState
  recvBuffer :: "byte list"
  recvBytesRead :: "64 word"

definition NewTCPConnection :: TCPConnection where
  "NewTCPConnection =
     \<lparr> recvState = StateIdle, recvBuffer = replicate (64 * 1024) 0, recvBytesRead = 0 \<rparr>"

text \<open>
  The socket is the sequence of outcomes its future \<open>Read\<close> calls will have: a chunk of
  bytes (an empty chunk is a read of zero bytes), or an error such as an expired read
  deadline. A read takes at most the space it is given and leaves the rest of a chunk
  for the next read; an exhausted socket reports \<open>io.EOF\<close>.
\<close>

datatype read_event = Bytes "byte list" | Fail error

text \<open>
  \<open>readExact\<close> on a slice of \<open>need\<close> bytes: the returned error (or none), the bytes
  stored into the slice so far, and the socket afterwards.
\<close>

fun readExact ::
  "nat \<Rightarrow> byte list \<Rightarrow> read_event list \<Rightarrow> error option \<times> byte list \<times> read_event list" where
  "readExact need got [] = (if need = 0 then (None, got, []) else (Some Eof, got, []))"
| "readExact need got (Fail e # rest) =
     (if need = 0 then (None, got, Fail e # rest) else (Some e, got, rest))"
| "readExact need got (Bytes d # rest) =
     (if need = 0 then (None, got, Bytes d # rest)
      else if d = [] then (Some Eof, got, rest)
      else if length d \<le> need then readExact (need - length d) (got @ d) rest
      else (None, got @ take need d, Bytes (drop need d) # rest))"

text \<open>
  \<open>conn.readExact(conn.recvBuffer[int(conn.recvBytesRead):hi])\<close>, for bounds already
  checked: the bytes read are stored into the buffer even when the call fails.
\<close>

definition readInto ::
  "TCPConnection \<Rightarrow> nat \<Rightarrow> read_event list \<Rightarrow> error option \<times> TCPConnection \<times> read_event list" where
  "readInto conn hi sock =
     (let lo = nat (sint (recvBytesRead conn));
          buf = recvBuffer conn
      in case readExact (hi - lo) [] sock of
           (err, got, sock') \<Rightarrow>
             (err, conn\<lparr> recvBuffer := take lo buf @ got @ drop (lo + length got) buf \<rparr>, sock'))"

definition payloadLenOf :: "byte list \<Rightarrow> 16 word" where
  "payloadLenOf buf = push_bit 8 (ucast (buf ! 18)) OR ucast (buf ! 19)"

type_synonym tcp_result =
  "(error + (PacketHeader \<times> byte list)) \<times> TCPConnection \<times> read_event list"

text \<open>
  The arms of the \<open>switch\<close> inside the \<open>for\<close> loop of \<open>TCPRecv\<close>. Each arm either
  returns or sets \<open>recvState\<close> and goes round the loop, which enters the arm of the state
  just set; the arms are therefore chained, last state first.
\<close>

definition tcpReady :: "TCPConnection \<Rightarrow> read_event list \<Rightarrow> tcp_result" where
  "tcpReady conn sock =
     (if unat (recvBytesRead conn) > length (recvBuffer conn) then (Inl Panic, conn, sock)
      else case Deserialize (take (unat (recvBytesRead conn)) (recvBuffer conn)) of
             Inl e \<Rightarrow> (Inl e, conn\<lparr> recvState := StateIdle \<rparr>, sock)
           | Inr r \<Rightarrow> (Inr r, conn\<lparr> recvState := StateIdle, recvBytesRead := 0 \<rparr>, sock))"

definition tcpReadingCRC :: "TCPConnection \<Rightarrow> read_event list \<Rightarrow> tcp_result" where
  "tcpReadingCRC conn sock =
     (if length (recvBuffer conn) < 20 then (Inl Panic, conn, sock)
      else
        let payloadLen = payloadLenOf (recvBuffer conn);
            crcStart = HeaderSize + unat payloadLen;
            crcEnd = crcStart + 4;
            remaining = int crcEnd - sint (recvBytesRead conn)
        in if remaining > 0 then
             (if sint (recvBytesRead conn) < 0 \<or> crcEnd > length (recvBuffer conn)
              then (Inl Panic, conn, sock)
              else case readInto conn crcEnd sock of
                     (Some e, conn', sock') \<Rightarrow> (Inl e, conn'\<lparr> recvState := StateIdle \<rparr>, sock')
                   | (None, conn', sock') \<Rightarrow>
                       tcpReady (conn'\<lparr> recvBytesRead := of_nat crcEnd,
                                        recvState := StateReady \<rparr>) sock')
           else tcpReady (conn\<lparr> recvState := StateReady \<rparr>) sock)"

definition tcpReadingPayload :: "TCPConnection \<Rightarrow> read_event list \<Rightarrow> tcp_result" where
  "tcpReadingPayload conn sock =
     (if length (recvBuffer conn) < 20 then (Inl Panic, conn, sock)
      else
        let payloadLen = payloadLenOf (recvBuffer conn);
            payloadStart = HeaderSize;
            payloadEnd = payloadStart + unat payloadLen;
            remaining = int payloadEnd - sint (recvBytesRead conn)
        in if remaining > 0 then
             (if sint (recvBytesRead conn) < 0 \<or> payloadEnd > length (recvBuffer conn)
              then (Inl Panic, conn, sock)
              else case readInto conn payloadEnd sock of
                     (Some e, conn', sock') \<Rightarrow> (Inl e, conn'\<lparr> recvState := StateIdle \<rparr>, sock')
                   | (None, conn', sock') \<Rightarrow>
                       tcpReadingCRC (conn'\<lparr> recvBytesRead := of_nat payloadEnd,
                                             recvState := StateReadingCRC \<rparr>) sock')
           else tcpReadingCRC (conn\<lparr> recvState := StateReadingCRC \<rparr>) sock)"

text \<open>The second half of the \<open>StateReadingHeader\<close> arm, once the 24 bytes are in.\<close>

definition tcpHeaderDone :: "TCPConnection \<Rightarrow> read_event list \<Rightarrow> tcp_result" where
  "tcpHeaderDone conn sock =
     (if length (recvBuffer conn) < 20 then (Inl Panic, conn, sock)
      else
        let payloadLen = payloadLenOf (recvBuffer conn);
            totalSize = HeaderSize + unat payloadLen + 4
        in if totalSize > length (recvBuffer conn) then
             (if length (recvBuffer conn) < HeaderSize then (Inl Panic, conn, sock)
              else tcpReadingPayload
                     (conn\<lparr> recvBuffer := take HeaderSize (recvBuffer conn)
                                             @ replicate (totalSize - HeaderSize) 0,
                            recvState := StateReadingPayload,
                            recvBytesRead := of_nat HeaderSize \<rparr>) sock)
           else tcpReadingPayload
                  (conn\<lparr> recvState := StateReadingPayload,
                         recvBytesRead := of_nat HeaderSize \<rparr>) sock)"

definition tcpReadingHeader :: "TCPConnection \<Rightarrow> read_event list \<Rightarrow> tcp_result" where
  "tcpReadingHeader conn sock =
     (let remaining = int HeaderSize - sint (recvBytesRead conn)
      in if remaining > 0 then
           (if sint (recvBytesRead conn) < 0 \<or> HeaderSize > length (recvBuffer conn)
            then (Inl Panic, conn, sock)
            else case readInto conn HeaderSize sock of
                   (Some e, conn', sock') \<Rightarrow> (Inl e, conn'\<lparr> recvState := StateIdle \<rparr>, sock')
                 | (None, conn', sock') \<Rightarrow>
                     tcpHeaderDone (conn'\<lparr> recvBytesRead := of_nat HeaderSize \<rparr>) sock')
         else tcpHeaderDone conn sock)"

definition tcpIdle :: "TCPConnection \<Rightarrow> read_event list \<Rightarrow> tcp_result" where
  "tcpIdle conn sock =
     tcpReadingHeader (conn\<lparr> recvBuffer := replicate HeaderSize 0, recvBytesRead := 0,
                             recvState := StateReadingHeader \<rparr>) sock"

definition TCPRecv :: "TCPConnection \<Rightarrow> read_event list \<Rightarrow> tcp_result" where
  "TCPRecv conn sock =
     (case recvState conn of
        StateIdle \<Rightarrow> tcpIdle conn sock
      | StateReadingHeader \<Rightarrow> tcpReadingHeader conn sock
      | StateReadingPayload \<Rightarrow> tcpReadingPayload conn sock
      | StateReadingCRC \<Rightarrow> tcpReadingCRC conn sock
      | StateReady \<Rightarrow> tcpReady conn sock)"

section \<open>Send pipeline (package overproto)\<close>

text \<open>
  What the pipeline takes from outside: the init flag, whether an AEAD key is set, the
  outcome of \<open>optimize.Compress\<close> and of \<open>optimize.Encrypt\<close> (ciphertext with tag, and
  IV) on a buffer, the clock in Unix seconds, and the outcome of the socket write.
\<close>

record sendEnv =
  initialized :: bool
  keySet :: bool
  compressOracle :: "byte list \<Rightarrow> error + byte list"
  encryptOracle :: "byte list \<Rightarrow> error + (byte list \<times> byte list)"
  unixTime :: int
  writeErr :: "error option"

text \<open>
  The dynamic type of the \<open>conn interface{}\<close> argument. A \<open>*net.UDPConn\<close> also
  satisfies \<open>net.Conn\<close>.
\<close>

datatype connKind = TCPConn | UDPConn | NotAConn

datatype wire = TCPWrite "byte list" | UDPWrite "byte list"

definition CompressThreshold :: nat where "CompressThreshold = 512"

definition SafeIntToUint16 :: "int \<Rightarrow> error + 16 word" where
  "SafeIntToUint16 v = (if v < 0 \<or> v > 65535 then Inl PayloadTooLarge else Inr (word_of_int v))"

definition SafeInt64ToUint32 :: "int \<Rightarrow> error + 32 word" where
  "SafeInt64ToUint32 v =
     (if v < 0 \<or> v > 4294967295 then Inl TimestampConversion else Inr (word_of_int v))"

definition NewPacketHeader :: "int \<Rightarrow> PacketHeader" where
  "NewPacketHeader unixNow =
     \<lparr> Magic = 0xABCD, Version = 0x01, Flags = 0, Opcode = 0, Proto = 0, StreamID = 0,
       Seq = 0, FragID = 0, TotalFrags = 0, PayloadLen = 0,
       Timestamp = (case SafeInt64ToUint32 unixNow of Inl _ \<Rightarrow> 0 | Inr t \<Rightarrow> t),
       CRC32 = 0 \<rparr>"

definition TCPSend ::
  "PacketHeader \<Rightarrow> byte list \<Rightarrow> error option \<Rightarrow> (error + nat) \<times> wire list" where
  "TCPSend hdr payload werr =
     (case Serialize hdr payload of
        Inl e \<Rightarrow> (Inl e, [])
      | Inr data \<Rightarrow>
          (case werr of Some e \<Rightarrow> (Inl e, [TCPWrite data])
                      | None \<Rightarrow> (Inr (length data), [TCPWrite data])))"

text \<open>\<open>UDPSend\<close> with \<open>addr == nil\<close>, as \<open>Send\<close> calls it; the MTU probe has no effect.\<close>

definition UDPSend ::
  "PacketHeader \<Rightarrow> byte list \<Rightarrow> error option \<Rightarrow> (error + nat) \<times> wire list" where
  "UDPSend hdr payload werr =
     (case Serialize hdr payload of
        Inl e \<Rightarrow> (Inl e, [])
      | Inr data \<Rightarrow>
          (case werr of Some e \<Rightarrow> (Inl e, [UDPWrite data])
                      | None \<Rightarrow> (Inr (length data), [UDPWrite data])))"

text \<open>Steps 3 and 4 of \<open>Send\<close>: stamp the header and dispatch on \<open>proto\<close>.\<close>

definition sendDispatch ::
  "sendEnv \<Rightarrow> connKind \<Rightarrow> 32 word \<Rightarrow> 8 word \<Rightarrow> 8 word \<Rightarrow> byte list \<Rightarrow> 8 word
     \<Rightarrow> (error + nat) \<times> wire list" where
  "sendDispatch env conn streamID opcode proto payload flags =
     (case SafeIntToUint16 (int (length payload)) of
        Inl _ \<Rightarrow> (Inl PayloadTooLarge, [])
      | Inr payloadLen \<Rightarrow>
          (case SafeInt64ToUint32 (unixTime env) of
             Inl _ \<Rightarrow> (Inl TimestampConversion, [])
           | Inr timestamp \<Rightarrow>
               let hdr = (NewPacketHeader (unixTime env))
                           \<lparr> StreamID := streamID, Opcode := opcode, Proto := proto,
                             Flags := flags, PayloadLen := payloadLen,
                             Timestamp := timestamp, Seq := 0 \<rparr>
               in if proto = ProtoTCP then
                    (if conn = NotAConn then (Inl BadConnType, [])
                     else TCPSend hdr payload (writeErr env))
                  else if proto = ProtoUDP then
                    (if conn \<noteq> UDPConn then (Inl BadConnType, [])
                     else if flags AND FlagReliable \<noteq> 0
                          then UDPSend hdr payload (writeErr env)
                          else UDPSend hdr payload (writeErr env))
                  else (Inl UnsupportedProto, [])))"

definition Send ::
  "sendEnv \<Rightarrow> connKind \<Rightarrow> 32 word \<Rightarrow> 8 word \<Rightarrow> 8 word \<Rightarrow> byte list \<Rightarrow> 8 word
     \<Rightarrow> (error + nat) \<times> wire list" where
  "Send env conn streamID opcode proto data flags =
     (if \<not> initialized env then (Inl NotInitialized, [])
      else if length data > 65535 then (Inl PayloadTooLarge, [])
      else
        let (payload1, flags1) =
              (if length data \<ge> CompressThreshold \<and> flags AND FlagCompressed = 0
               then (case compressOracle env data of
                       Inr compressed \<Rightarrow> (compressed, flags OR FlagCompressed)
                     | Inl _ \<Rightarrow> (data, flags))
               else (data, flags))
        in if flags1 AND FlagEncrypted \<noteq> 0 then
             (if \<not> keySet env then (Inl NoKey, [])
              else case encryptOracle env payload1 of
                     Inl e \<Rightarrow> (Inl e, [])
                   | Inr (encrypted, iv) \<Rightarrow>
                       sendDispatch env conn streamID opcode proto (iv @ encrypted) flags1)
           else sendDispatch env conn streamID opcode proto payload1 flags1)"

section \<open>Auxiliary notions and sample inputs\<close>

text \<open>The header that \<open>Deserialize\<close> decodes from the first 24 bytes of a buffer.\<close>

definition headerOf :: "byte list \<Rightarrow> PacketHeader" where
  "headerOf bs = \<lparr> Magic = Uint16 bs 0, Version = bs ! 2, Flags = bs ! 3,
                    Opcode = bs ! 4, Proto = bs ! 5,
                    StreamID = Uint32 bs 6, Seq = Uint32 bs 10,
                    FragID = Uint16 bs 14, TotalFrags = Uint16 bs 16,
                    PayloadLen = Uint16 bs 18, Timestamp = Uint32 bs 20,
                    CRC32 = 0 \<rparr>"

text \<open>
  The header of the round-trip scenario of the specification, with payload \<open>"test"\<close>;
  the same header with a stamped \<open>Timestamp\<close>, as \<open>NewPacketHeader\<close> builds it; and a
  header whose \<open>PayloadLen\<close> disagrees with the (empty) payload.
\<close>

definition sampleHeader :: PacketHeader where
  "sampleHeader = \<lparr> Magic = 0xABCD, Version = 0x01, Flags = 0, Opcode = 1, Proto = 1,
                     StreamID = 0x12345678, Seq = 0x87654321, FragID = 0x1111,
                     TotalFrags = 0x2222, PayloadLen = 4, Timestamp = 0, CRC32 = 0 \<rparr>"

definition samplePayload :: "byte list" where
  "samplePayload = [0x74, 0x65, 0x73, 0x74]"

definition stampedHeader :: PacketHeader where
  "stampedHeader = sampleHeader\<lparr> Timestamp := 0x65000000 \<rparr>"

definition mislabelledHeader :: PacketHeader where
  "mislabelledHeader = sampleHeader\<lparr> PayloadLen := 5 \<rparr>"

text \<open>The frame layout: header (24 bytes), payload, CRC32 trailer (4 bytes, big-endian).\<close>

definition wireBytes :: "PacketHeader \<Rightarrow> byte list \<Rightarrow> byte list" where
  "wireBytes h p = headerBuf h @ p @ PutUint32 (ComputeCRC32 (headerBuf h @ p))"

text \<open>
  The fragments as the specification words them: the \<open>i\<close>-th slice of \<open>maxFrag\<close> bytes
  of the payload (the last one the remainder), and the header of fragment \<open>i\<close> of
  \<open>n\<close>: the original header with the FRAG flag set, \<open>frag_id = i\<close>,
  \<open>total_frags = n\<close> and \<open>payload_len\<close> the size of its slice.
\<close>

definition specSlice :: "byte list \<Rightarrow> nat \<Rightarrow> nat \<Rightarrow> byte list" where
  "specSlice payload maxFrag i = take maxFrag (drop (i * maxFrag) payload)"

definition specFragHeader :: "PacketHeader \<Rightarrow> byte list \<Rightarrow> nat \<Rightarrow> nat \<Rightarrow> nat \<Rightarrow> PacketHeader" where
  "specFragHeader h payload maxFrag n i =
     h\<lparr> Flags := Flags h OR FlagFragment, FragID := of_nat i, TotalFrags := of_nat n,
        PayloadLen := of_nat (length (specSlice payload maxFrag i)) \<rparr>"

text \<open>\<open>N = ceil(len / maxFrag)\<close>.\<close>

definition specTotalFrags :: "nat \<Rightarrow> nat \<Rightarrow> nat" where
  "specTotalFrags len maxFrag = (len + maxFrag - 1) div maxFrag"

text \<open>
  Two buffers longer than their frame. \<open>trailingFrame\<close> is the frame of the round-trip
  scenario followed by four more bytes; \<open>paddedFrame\<close> is a header announcing an empty
  payload, four bytes that are not its CRC32, and then the CRC32 of the header. A UDP
  datagram is handed to \<open>Deserialize\<close> whole, whatever its length.
\<close>

definition sampleCRC :: "32 word" where
  "sampleCRC = ComputeCRC32 (headerBuf sampleHeader @ samplePayload)"

definition trailingFrame :: "byte list" where
  "trailingFrame = headerBuf sampleHeader @ samplePayload @ PutUint32 sampleCRC
                     @ PutUint32 (sampleCRC + 1)"

definition emptyHeader :: PacketHeader where
  "emptyHeader = sampleHeader\<lparr> PayloadLen := 0 \<rparr>"

definition emptyCRC :: "32 word" where
  "emptyCRC = ComputeCRC32 (headerBuf emptyHeader)"

definition paddedFrame :: "byte list" where
  "paddedFrame = headerBuf emptyHeader @ PutUint32 (emptyCRC + 1) @ PutUint32 emptyCRC"

text \<open>
  The fragmentation scenario of the specification (300 bytes \<open>X\<close>, for MTU 100), and a
  payload of 65537 bytes, for an MTU of 65564.
\<close>

definition xPayload :: "byte list" where
  "xPayload = replicate 300 0x58"

definition longPayload :: "byte list" where
  "longPayload = replicate 65537 0"

text \<open>
  An initialised library with no key, a clock reading, and a socket whose writes succeed;
  and the header \<open>Send\<close> stamps for stream 1, opcode DATA, protocol UDP, flag RELIABLE
  and the payload \<open>"test"\<close>.
\<close>

definition sampleEnv :: sendEnv where
  "sampleEnv = \<lparr> initialized = True, keySet = False,
                  compressOracle = (\<lambda>d. Inl (IOError 0)),
                  encryptOracle = (\<lambda>d. Inl (IOError 0)),
                  unixTime = 1700000000, writeErr = None \<rparr>"

definition reliableHeader :: PacketHeader where
  "reliableHeader = \<lparr> Magic = 0xABCD, Version = 0x01, Flags = FlagReliable, Opcode = OpData,
                       Proto = ProtoUDP, StreamID = 1, Seq = 0, FragID = 0, TotalFrags = 0,
                       PayloadLen = 4, Timestamp = 1700000000, CRC32 = 0 \<rparr>"

text \<open>
  The frame of the round-trip scenario arriving in two pieces, with a failed read (an
  expired read deadline, say) between them; and the connection as the interrupted call
  leaves it.
\<close>

definition sampleFrame :: "byte list" where
  "sampleFrame = wireBytes sampleHeader samplePayload"

definition interruptedSock :: "read_event list" where
  "interruptedSock = [Bytes (take 10 sampleFrame), Fail (IOError 1), Bytes (drop 10 sampleFrame)]"

definition interruptedConn :: TCPConnection where
  "interruptedConn = \<lparr> recvState = StateIdle,
                        recvBuffer = take 10 sampleFrame @ replicate 14 0,
                        recvBytesRead = 0 \<rparr>"



section \<open>Properties of the codec\<close>

lemma be16_join:
  "ucast (ucast v :: byte) OR push_bit 8 (ucast (ucast (drop_bit 8 v) :: byte)) = (v :: 16 word)"
  by (rule bit_word_eqI) (auto simp: bit_simps)

lemma be32_join:
  "ucast (ucast v :: byte) OR push_bit 8 (ucast (ucast (drop_bit 8 v) :: byte))
     OR push_bit 16 (ucast (ucast (drop_bit 16 v) :: byte))
     OR push_bit 24 (ucast (ucast (drop_bit 24 v) :: byte)) = (v :: 32 word)"
  apply (rule bit_word_eqI)
  subgoal for n
    by (cases "n < 8"; cases "n < 16"; cases "n < 24") (auto simp: bit_simps)
  done

lemma length_PutUint16 [simp]: "length (PutUint16 v) = 2"
  by (simp add: PutUint16_def)

lemma length_PutUint32 [simp]: "length (PutUint32 v) = 4"
  by (simp add: PutUint32_def)

lemma length_headerBuf [simp]: "length (headerBuf h) = 24"
  by (simp add: headerBuf_def)

lemma Update_append: "Update (Update c xs) ys = Update c (xs @ ys)"
  by (simp add: Update_def)

lemma Serialize_eq:
  "Serialize h p =
     (if length p > 65535 then Inl PayloadTooLarge
      else Inr (headerBuf h @ p @ PutUint32 (ComputeCRC32 (headerBuf h @ p))))"
  by (simp add: Serialize_def HeaderSize_def ComputeCRC32_def Update_append)

lemma Uint32_at: "length a = i \<Longrightarrow> Uint32 (a @ PutUint32 v @ r) i = v"
  by (simp add: Uint32_def PutUint32_def nth_append be32_join)

lemma Uint32_at_end: "length a = i \<Longrightarrow> Uint32 (a @ PutUint32 v) i = v"
  using Uint32_at [of a i v "[]"] by simp

lemma header_fields:
  "Uint16 (headerBuf h @ r) 0 = Magic h"
  "(headerBuf h @ r) ! 2 = Version h"
  "(headerBuf h @ r) ! 3 = Flags h"
  "(headerBuf h @ r) ! 4 = Opcode h"
  "(headerBuf h @ r) ! 5 = Proto h"
  "Uint32 (headerBuf h @ r) 6 = StreamID h"
  "Uint32 (headerBuf h @ r) 10 = Seq h"
  "Uint16 (headerBuf h @ r) 14 = FragID h"
  "Uint16 (headerBuf h @ r) 16 = TotalFrags h"
  "Uint16 (headerBuf h @ r) 18 = PayloadLen h"
  "Uint32 (headerBuf h @ r) 20 = 0"
  by (simp_all add: headerBuf_def Uint16_def Uint32_def PutUint16_def PutUint32_def
        be16_join be32_join)

lemma len_check: "(int (a + k) > int n - 4) \<longleftrightarrow> (a + k + 4 > n)"
  by linarith

lemma Deserialize_flat:
  "Deserialize bs =
     (if length bs < 28 then Inl Truncated
      else if Uint16 bs 0 \<noteq> 0xABCD then Inl BadMagic
      else if bs ! 2 \<noteq> 0x01 then Inl BadVersion
      else if 24 + unat (Uint16 bs 18) + 4 > length bs then Inl LengthOverflow
      else if Uint32 bs (length bs - 4)
                \<noteq> ComputeCRC32 (take 24 bs @ take (unat (Uint16 bs 18)) (drop 24 bs))
        then Inl CrcMismatch
      else Inr (headerOf bs, take (unat (Uint16 bs 18)) (drop 24 bs)))"
  unfolding Deserialize_def Let_def len_check
  by (simp add: HeaderSize_def ValidateHeader_def ComputeCRC32_def Update_append headerOf_def)

lemma headerOf_headerBuf: "headerOf (headerBuf h @ r) = h\<lparr>Timestamp := 0, CRC32 := 0\<rparr>"
  by (simp add: headerOf_def header_fields)

lemma wire_trailer:
  "Uint32 (headerBuf h @ p @ PutUint32 c) (24 + length p) = c"
proof -
  have "24 + length p = length (headerBuf h @ p)" by simp
  moreover have "headerBuf h @ p @ PutUint32 c = (headerBuf h @ p) @ PutUint32 c" by simp
  ultimately show ?thesis
    using Uint32_at_end [of "headerBuf h @ p" "length (headerBuf h @ p)" c] by metis
qed

text \<open>
  What \<open>Deserialize\<close> makes of the bytes \<open>Serialize\<close> produces, for any header whose
  \<open>PayloadLen\<close> may or may not agree with the payload.
\<close>

lemma Deserialize_wire:
  assumes m: "Magic h = 0xABCD" and v: "Version h = 0x01"
  shows "Deserialize (headerBuf h @ p @ PutUint32 (ComputeCRC32 (headerBuf h @ p))) =
     (if length p < unat (PayloadLen h) then Inl LengthOverflow
      else if ComputeCRC32 (headerBuf h @ p)
                \<noteq> ComputeCRC32 (headerBuf h @ take (unat (PayloadLen h)) p)
        then Inl CrcMismatch
      else Inr (h\<lparr>Timestamp := 0, CRC32 := 0\<rparr>, take (unat (PayloadLen h)) p))"
proof -
  let ?c = "ComputeCRC32 (headerBuf h @ p)"
  let ?d = "headerBuf h @ p @ PutUint32 ?c"
  have f: "Uint16 ?d 0 = 0xABCD" "?d ! 2 = 1" "Uint16 ?d 18 = PayloadLen h"
    by (simp_all add: header_fields m v)
  have l: "length ?d = 28 + length p" by simp
  show ?thesis
    by (simp only: Deserialize_flat f l headerOf_headerBuf) (simp add: wire_trailer)
qed

lemma Deserialize_Serialize:
  assumes "Magic h = 0xABCD" and "Version h = 0x01"
    and "length p \<le> 65535" and "unat (PayloadLen h) = length p"
  shows "\<exists>buf. Serialize h p = Inr buf
           \<and> Deserialize buf = Inr (h\<lparr>Timestamp := 0, CRC32 := 0\<rparr>, p)"
  using assms by (simp add: Serialize_eq Deserialize_wire)

text \<open>
  C1 (as amended). For every header with magic 0xABCD and version 0x01 whose
  \<open>PayloadLen\<close> field equals the length of the payload, and every payload of at most
  65535 bytes, \<open>Deserialize\<close> applied to the output of \<open>Serialize\<close> succeeds and returns
  the payload unchanged and the header with every wire field unchanged; the reserved
  word (\<open>Timestamp\<close>) and the in-memory \<open>CRC32\<close> field, neither of which is
  transmitted, come back as zero.
\<close>

theorem C1_roundtrip:
  assumes "Magic h = 0xABCD" and "Version h = 0x01"
    and "length p \<le> 65535" and "unat (PayloadLen h) = length p"
  shows "\<exists>buf. Serialize h p = Inr buf
           \<and> Deserialize buf = Inr (h\<lparr>Timestamp := 0, CRC32 := 0\<rparr>, p)"
  using assms by (rule Deserialize_Serialize)

theorem C1_roundtrip_witness:
  "Magic stampedHeader = 0xABCD \<and> Version stampedHeader = 0x01
     \<and> length samplePayload \<le> 65535
     \<and> unat (PayloadLen stampedHeader) = length samplePayload
     \<and> (\<exists>buf. Serialize stampedHeader samplePayload = Inr buf
           \<and> Deserialize buf = Inr (stampedHeader\<lparr>Timestamp := 0, CRC32 := 0\<rparr>, samplePayload))"
proof -
  have a: "Magic stampedHeader = 0xABCD" and b: "Version stampedHeader = 0x01"
    and c: "length samplePayload \<le> 65535"
    and d: "unat (PayloadLen stampedHeader) = length samplePayload"
    by (simp_all add: stampedHeader_def sampleHeader_def samplePayload_def)
  from C1_roundtrip [OF a b c d] a b c d show ?thesis by blast
qed

text \<open>
  C1 as stated fails: a header carrying a timestamp is not returned exactly (the reserved
  word comes back as zero), and a header whose \<open>PayloadLen\<close> disagrees with the payload
  does not deserialize at all.
\<close>

theorem C1_counterexample:
  "Magic stampedHeader = 0xABCD \<and> Version stampedHeader = 0x01
     \<and> length samplePayload \<le> 65535
     \<and> isl (Serialize stampedHeader samplePayload) = False
     \<and> Deserialize (projr (Serialize stampedHeader samplePayload))
           \<noteq> Inr (stampedHeader, samplePayload)
     \<and> Magic mislabelledHeader = 0xABCD \<and> Version mislabelledHeader = 0x01
     \<and> Deserialize (projr (Serialize mislabelledHeader [])) = Inl LengthOverflow"
proof -
  have a: "Magic stampedHeader = 0xABCD" and b: "Version stampedHeader = 0x01"
    and c: "length samplePayload \<le> 65535"
    and d: "unat (PayloadLen stampedHeader) = length samplePayload"
    by (simp_all add: stampedHeader_def sampleHeader_def samplePayload_def)
  from Deserialize_Serialize [OF a b c d] obtain buf where
    s: "Serialize stampedHeader samplePayload = Inr buf" and
    r: "Deserialize buf = Inr (stampedHeader\<lparr>Timestamp := 0, CRC32 := 0\<rparr>, samplePayload)"
    by blast
  have "Timestamp (stampedHeader\<lparr>Timestamp := 0, CRC32 := 0\<rparr>) \<noteq> Timestamp stampedHeader"
    by (simp add: stampedHeader_def)
  then have ne: "stampedHeader\<lparr>Timestamp := 0, CRC32 := 0\<rparr> \<noteq> stampedHeader"
    by metis
  have e: "Magic mislabelledHeader = 0xABCD" and f: "Version mislabelledHeader = 0x01"
    and g: "unat (PayloadLen mislabelledHeader) = 5"
    by (simp_all add: mislabelledHeader_def sampleHeader_def)
  have "Deserialize (projr (Serialize mislabelledHeader [])) = Inl LengthOverflow"
    using Deserialize_wire [OF e f, of "[]"] by (simp add: Serialize_eq g)
  with a b c s r ne e f show ?thesis by simp
qed

text \<open>
  C2 (as amended). \<open>Deserialize\<close> fails in exactly these cases, in this order:
  \<open>Truncated\<close> when the buffer has fewer than 28 bytes; otherwise \<open>BadMagic\<close> when the
  magic is not 0xABCD; otherwise \<open>BadVersion\<close> when the version byte is not 0x01;
  otherwise \<open>LengthOverflow\<close> when 24 + payload_len + 4 exceeds the buffer length;
  otherwise \<open>CrcMismatch\<close> when the last four bytes of the buffer (big-endian),
  wherever the payload ends, differ from the CRC32 of the first 24 bytes as received
  followed by the payload_len payload bytes; and it succeeds otherwise, returning the
  decoded header and the payload. The last four bytes are the trailer that follows the
  payload only when the buffer has exactly 24 + payload_len + 4 bytes.
\<close>

theorem C2_Deserialize_cases:
  "(Deserialize bs = Inl Truncated \<longleftrightarrow> length bs < 28)
   \<and> (Deserialize bs = Inl BadMagic \<longleftrightarrow> 28 \<le> length bs \<and> Uint16 bs 0 \<noteq> 0xABCD)
   \<and> (Deserialize bs = Inl BadVersion \<longleftrightarrow>
        28 \<le> length bs \<and> Uint16 bs 0 = 0xABCD \<and> bs ! 2 \<noteq> 0x01)
   \<and> (Deserialize bs = Inl LengthOverflow \<longleftrightarrow>
        28 \<le> length bs \<and> Uint16 bs 0 = 0xABCD \<and> bs ! 2 = 0x01
        \<and> 24 + unat (Uint16 bs 18) + 4 > length bs)
   \<and> (Deserialize bs = Inl CrcMismatch \<longleftrightarrow>
        28 \<le> length bs \<and> Uint16 bs 0 = 0xABCD \<and> bs ! 2 = 0x01
        \<and> 24 + unat (Uint16 bs 18) + 4 \<le> length bs
        \<and> Uint32 bs (length bs - 4)
             \<noteq> ComputeCRC32 (take 24 bs @ take (unat (Uint16 bs 18)) (drop 24 bs)))
   \<and> (Deserialize bs = Inr (headerOf bs, take (unat (Uint16 bs 18)) (drop 24 bs)) \<longleftrightarrow>
        28 \<le> length bs \<and> Uint16 bs 0 = 0xABCD \<and> bs ! 2 = 0x01
        \<and> 24 + unat (Uint16 bs 18) + 4 \<le> length bs
        \<and> Uint32 bs (length bs - 4)
             = ComputeCRC32 (take 24 bs @ take (unat (Uint16 bs 18)) (drop 24 bs)))
   \<and> (Deserialize bs \<in> {Inl Truncated, Inl BadMagic, Inl BadVersion, Inl LengthOverflow,
                          Inl CrcMismatch,
                          Inr (headerOf bs, take (unat (Uint16 bs 18)) (drop 24 bs))})"
  by (simp add: Deserialize_flat)

lemma trailingFrame_facts:
  "length trailingFrame = 36" "Uint16 trailingFrame 0 = 0xABCD" "trailingFrame ! 2 = 1"
  "unat (Uint16 trailingFrame 18) = 4"
  "take 24 trailingFrame = headerBuf sampleHeader"
  "take 4 (drop 24 trailingFrame) = samplePayload"
  "Uint32 trailingFrame 28 = sampleCRC"
  "Uint32 trailingFrame 32 = sampleCRC + 1"
proof -
  show "length trailingFrame = 36" by (simp add: trailingFrame_def samplePayload_def)
  show "Uint16 trailingFrame 0 = 0xABCD" "trailingFrame ! 2 = 1"
       "unat (Uint16 trailingFrame 18) = 4"
    by (simp_all add: trailingFrame_def header_fields sampleHeader_def)
  show "take 24 trailingFrame = headerBuf sampleHeader"
       "take 4 (drop 24 trailingFrame) = samplePayload"
    by (simp_all add: trailingFrame_def samplePayload_def)
  have "trailingFrame = (headerBuf sampleHeader @ samplePayload) @ PutUint32 sampleCRC
          @ PutUint32 (sampleCRC + 1)"
    by (simp add: trailingFrame_def)
  then show "Uint32 trailingFrame 28 = sampleCRC"
    using Uint32_at [of "headerBuf sampleHeader @ samplePayload" 28 sampleCRC
                        "PutUint32 (sampleCRC + 1)"]
    by (simp add: samplePayload_def)
  have "trailingFrame = (headerBuf sampleHeader @ samplePayload @ PutUint32 sampleCRC)
          @ PutUint32 (sampleCRC + 1)"
    by (simp add: trailingFrame_def)
  then show "Uint32 trailingFrame 32 = sampleCRC + 1"
    using Uint32_at_end [of "headerBuf sampleHeader @ samplePayload @ PutUint32 sampleCRC" 32
                            "sampleCRC + 1"]
    by (simp add: samplePayload_def)
qed

lemma paddedFrame_facts:
  "length paddedFrame = 32" "Uint16 paddedFrame 0 = 0xABCD" "paddedFrame ! 2 = 1"
  "unat (Uint16 paddedFrame 18) = 0"
  "take 24 paddedFrame = headerBuf emptyHeader"
  "Uint32 paddedFrame 24 = emptyCRC + 1"
  "Uint32 paddedFrame 28 = emptyCRC"
proof -
  show "length paddedFrame = 32" by (simp add: paddedFrame_def)
  show "Uint16 paddedFrame 0 = 0xABCD" "paddedFrame ! 2 = 1"
       "unat (Uint16 paddedFrame 18) = 0"
    by (simp_all add: paddedFrame_def header_fields sampleHeader_def emptyHeader_def)
  show "take 24 paddedFrame = headerBuf emptyHeader"
    by (simp add: paddedFrame_def)
  show "Uint32 paddedFrame 24 = emptyCRC + 1"
    using Uint32_at [of "headerBuf emptyHeader" 24 "emptyCRC + 1" "PutUint32 emptyCRC"]
    by (simp add: paddedFrame_def)
  have "paddedFrame = (headerBuf emptyHeader @ PutUint32 (emptyCRC + 1)) @ PutUint32 emptyCRC"
    by (simp add: paddedFrame_def)
  then show "Uint32 paddedFrame 28 = emptyCRC"
    using Uint32_at_end [of "headerBuf emptyHeader @ PutUint32 (emptyCRC + 1)" 28 emptyCRC]
    by simp
qed

text \<open>
  C2 as stated fails on a buffer longer than its frame, where the four bytes after the
  payload are not the last four. In \<open>trailingFrame\<close> the trailer after the payload is
  the right CRC32, and \<open>Deserialize\<close> reports \<open>CrcMismatch\<close>; in \<open>paddedFrame\<close> the
  four bytes after the (empty) payload are not the CRC32, and \<open>Deserialize\<close> succeeds.
\<close>

theorem C2_counterexample:
  "28 \<le> length trailingFrame \<and> Uint16 trailingFrame 0 = 0xABCD \<and> trailingFrame ! 2 = 0x01
   \<and> 24 + unat (Uint16 trailingFrame 18) + 4 \<le> length trailingFrame
   \<and> Uint32 trailingFrame (24 + unat (Uint16 trailingFrame 18))
        = ComputeCRC32 (take 24 trailingFrame
                          @ take (unat (Uint16 trailingFrame 18)) (drop 24 trailingFrame))
   \<and> Deserialize trailingFrame = Inl CrcMismatch
   \<and> 28 \<le> length paddedFrame \<and> Uint16 paddedFrame 0 = 0xABCD \<and> paddedFrame ! 2 = 0x01
   \<and> 24 + unat (Uint16 paddedFrame 18) + 4 \<le> length paddedFrame
   \<and> Uint32 paddedFrame (24 + unat (Uint16 paddedFrame 18))
        \<noteq> ComputeCRC32 (take 24 paddedFrame
                          @ take (unat (Uint16 paddedFrame 18)) (drop 24 paddedFrame))
   \<and> Deserialize paddedFrame = Inr (headerOf paddedFrame, [])"
proof -
  have a: "Deserialize trailingFrame = Inl CrcMismatch"
    by (simp add: Deserialize_flat trailingFrame_facts sampleCRC_def)
  have b: "Deserialize paddedFrame = Inr (headerOf paddedFrame, [])"
    by (simp add: Deserialize_flat paddedFrame_facts emptyCRC_def)
  show ?thesis
    by (simp add: a b trailingFrame_facts paddedFrame_facts sampleCRC_def emptyCRC_def)
qed



section \<open>Properties of the fragmenter\<close>

lemma Serialize_wire:
  "Serialize h p = (if length p > 65535 then Inl PayloadTooLarge else Inr (wireBytes h p))"
  by (simp add: Serialize_eq wireBytes_def)

lemma unat_payloadSize:
  "length p < 2 ^ 63 \<Longrightarrow> unat (of_nat (length p) :: 64 word) = length p"
  by (simp add: unat_of_nat)

lemma unat_maxFrag:
  fixes mtu :: "64 word"
  shows "unat (mtu - 24 - 4) = (if 28 \<le> unat mtu then unat mtu - 28 else unat mtu + 2 ^ 64 - 28)"
proof -
  have "mtu - 24 - 4 = mtu - 28" by simp
  then show ?thesis
    by (simp add: unat_sub_if_size word_size)
qed

lemma unat_totalFrags:
  fixes ps mf :: "64 word"
  assumes "unat mf < unat ps" and "unat ps < 2 ^ 63" and "0 < unat mf"
  shows "unat ((ps + mf - 1) div mf) = specTotalFrags (unat ps) (unat mf)"
proof -
  have a: "unat (ps + mf) = unat ps + unat mf"
    using assms by (simp add: unat_add_lem [THEN iffD1])
  have "unat (ps + mf - 1) = unat ps + unat mf - 1"
    using assms a by (simp add: unat_sub_if_size word_size)
  then show ?thesis by (simp add: unat_div specTotalFrags_def)
qed

lemma below_total:
  assumes "0 < M" and "i < specTotalFrags L M"
  shows "i * M < L"
proof -
  from assms have "Suc i \<le> (L + M - 1) div M"
    by (simp add: specTotalFrags_def)
  then have "Suc i * M \<le> (L + M - 1) div M * M"
    by (rule mult_le_mono1)
  also have "\<dots> \<le> L + M - 1" by simp
  finally have "i * M + M \<le> L + M - 1" by simp
  with assms(1) show ?thesis by linarith
qed

lemma total_covers:
  assumes "0 < M"
  shows "L \<le> specTotalFrags L M * M"
proof -
  have "L + M - 1 < (L + M - 1) div M * M + M"
    using assms by (metis add.commute dividend_less_div_times)
  with assms show ?thesis by (simp add: specTotalFrags_def)
qed

lemma unat_add64:
  "unat (a :: 64 word) + unat b < 2 ^ 64 \<Longrightarrow> unat (a + b) = unat a + unat b"
  using unat_add_lem [of a b] by simp

lemma unat_mult64:
  "unat (a :: 64 word) * unat b < 2 ^ 64 \<Longrightarrow> unat (a * b) = unat a * unat b"
  using unat_mult_lem [of a b] by simp

lemma fragmentAt_eq:
  fixes mf ps tf :: "64 word"
  assumes M: "0 < unat mf" and mlt: "unat mf < length p" and L: "length p < 2 ^ 63" and ps: "unat ps = length p"
    and i: "i * unat mf < length p" and i16: "i < 65536"
  shows "fragmentAt h p mf ps tf (of_nat i) =
           (if length (specSlice p (unat mf) i) > 65535 then Inl PayloadTooLarge
            else Inr (wireBytes (specFragHeader h p (unat mf) (unat (ucast tf :: 16 word)) i)
                                (specSlice p (unat mf) i),
                      specFragHeader h p (unat mf) (unat (ucast tf :: 16 word)) i))"
proof -
  let ?M = "unat mf" and ?L = "length p"
  let ?off = "(ucast (of_nat i :: 16 word) :: 64 word) * mf"
  have ui: "unat (ucast (of_nat i :: 16 word) :: 64 word) = i"
    using i16 by (simp add: unsigned_ucast_eq unat_of_nat take_bit_nat_eq_self)
  have uoff: "unat ?off = i * ?M"
    using i L ui by (simp add: unat_mult64)
  have usum: "unat (?off + mf) = i * ?M + ?M"
    using i L mlt uoff by (simp add: unat_add64)
  have cond: "(?off + mf > ps) \<longleftrightarrow> (i * ?M + ?M > ?L)"
    by (simp add: word_less_nat_alt usum ps)
  let ?fs = "if ?off + mf > ps then ps - ?off else mf"
  have ufs: "unat ?fs = length (specSlice p ?M i)"
    using i by (auto simp: cond specSlice_def unat_sub_if_size uoff ps min_def)
  have usum2: "unat (?off + ?fs) = i * ?M + unat ?fs"
    using i L uoff ufs by (simp add: unat_add64 specSlice_def)
  have ok1: "?off \<le> ?off + ?fs"
    by (simp add: word_le_nat_alt usum2 uoff)
  have ok2: "unat (?off + ?fs) \<le> ?L"
    using i by (simp add: usum2 ufs specSlice_def)
  have sl: "take (unat ?fs) (drop (unat ?off) p) = specSlice p ?M i"
    by (simp add: uoff ufs) (simp add: specSlice_def min_def)
  have pl: "(ucast ?fs :: 16 word) = of_nat (length (specSlice p ?M i))"
    by (simp add: ufs [symmetric])
  have tt: "(ucast tf :: 16 word) = of_nat (unat (ucast tf :: 16 word))" by simp
  show ?thesis
    unfolding fragmentAt_def Let_def
    apply (simp only: ok1 ok2 sl pl simp_thms if_False Serialize_wire)
    apply (simp add: specFragHeader_def)
    done
qed


lemma fragLoop_ok:
  fixes mf ps tf :: "64 word"
  assumes M: "0 < unat mf" and mlt: "unat mf < length p" and L: "length p < 2 ^ 63"
    and ps: "unat ps = length p" and small: "unat mf \<le> 65535"
    and idx: "\<forall>i \<in> set js. i * unat mf < length p \<and> i < 65536"
  shows "fragLoop h p mf ps tf js fs hs =
           Inr (fs @ map (\<lambda>i. wireBytes (specFragHeader h p (unat mf) (unat (ucast tf :: 16 word)) i)
                                        (specSlice p (unat mf) i)) js,
                hs @ map (specFragHeader h p (unat mf) (unat (ucast tf :: 16 word))) js)"
  using idx
proof (induction js arbitrary: fs hs)
  case Nil
  then show ?case by simp
next
  case (Cons j js)
  have len: "\<not> length (specSlice p (unat mf) j) > 65535"
    using small by (simp add: specSlice_def)
  from Cons.prems have j: "j * unat mf < length p" "j < 65536" by simp_all
  have "fragmentAt h p mf ps tf (of_nat j) =
          Inr (wireBytes (specFragHeader h p (unat mf) (unat (ucast tf :: 16 word)) j)
                         (specSlice p (unat mf) j),
               specFragHeader h p (unat mf) (unat (ucast tf :: 16 word)) j)"
    using fragmentAt_eq [OF M mlt L ps j] len by simp
  moreover from Cons.prems have "\<forall>i \<in> set js. i * unat mf < length p \<and> i < 65536"
    by simp
  ultimately show ?case
    using Cons.IH by simp
qed

lemma fragLoop_too_large:
  fixes mf ps tf :: "64 word"
  assumes M: "0 < unat mf" and mlt: "unat mf < length p" and L: "length p < 2 ^ 63"
    and ps: "unat ps = length p" and big: "65535 < unat mf"
  shows "fragLoop h p mf ps tf (0 # js) fs hs = Inl PayloadTooLarge"
proof -
  have "length (specSlice p (unat mf) 0) = unat mf"
    using mlt by (simp add: specSlice_def)
  with big have "length (specSlice p (unat mf) 0) > 65535"
    by simp
  moreover have "0 * unat mf < length p" using mlt by (cases p) simp_all
  ultimately have "fragmentAt h p mf ps tf (of_nat 0) = Inl PayloadTooLarge"
    using fragmentAt_eq [OF M mlt L ps, of 0 h tf] by simp
  then show ?thesis by simp
qed

lemma FragmentPacket_cases:
  assumes L: "length p < 2 ^ 63"
  shows "FragmentPacket h p mtu =
     (let M = unat (mtu - 24 - 4); N = specTotalFrags (length p) M
      in if mtu = 28 then Inl MTUTooSmall
         else if length p \<le> M then Inr None
         else if N > 256 then Inl TooManyFragments
         else if M > 65535 then Inl PayloadTooLarge
         else Inr (Some (map (\<lambda>i. wireBytes (specFragHeader h p M N i) (specSlice p M i)) [0..<N],
                         map (specFragHeader h p M N) [0..<N])))"
proof -
  define mf where "mf = mtu - 24 - 4"
  define ps where "ps = (of_nat (length p) :: 64 word)"
  define tf where "tf = (ps + mf - 1) div mf"
  define M where "M = unat mf"
  define N where "N = specTotalFrags (length p) M"
  have ups: "unat ps = length p" unfolding ps_def using L by (rule unat_payloadSize)
  have z: "(mf \<le> 0) \<longleftrightarrow> mtu = 28" "(mf = 0) \<longleftrightarrow> mtu = 28"
    unfolding mf_def by simp_all
  have le: "(ps \<le> mf) \<longleftrightarrow> length p \<le> M"
    by (simp add: word_le_nat_alt ups M_def)
  have unfold: "FragmentPacket h p mtu =
     (if mf \<le> 0 then Inl MTUTooSmall
      else if ps \<le> mf then Inr None
      else if tf > 256 then Inl TooManyFragments
      else case fragLoop h p mf ps tf [0..<unat (ucast tf :: 16 word)] [] [] of
             Inl e \<Rightarrow> Inl e
           | Inr r \<Rightarrow> Inr (Some r))"
    unfolding FragmentPacket_def Let_def mf_def ps_def tf_def ..
  have goal: "FragmentPacket h p mtu =
     (if mtu = 28 then Inl MTUTooSmall
      else if length p \<le> M then Inr None
      else if N > 256 then Inl TooManyFragments
      else if M > 65535 then Inl PayloadTooLarge
      else Inr (Some (map (\<lambda>i. wireBytes (specFragHeader h p M N i) (specSlice p M i)) [0..<N],
                      map (specFragHeader h p M N) [0..<N])))"
  proof (cases "mtu = 28 \<or> length p \<le> M")
    case True
    then show ?thesis by (auto simp: unfold z le)
  next
    case False
    then have ne: "mtu \<noteq> 28" and mlt: "unat mf < length p" by (simp_all add: M_def)
    from ne have M0: "0 < unat mf" using z by (simp add: unat_gt_0)
    have utf: "unat tf = N"
      unfolding tf_def N_def M_def using unat_totalFrags [of mf ps] mlt L M0 by (simp add: ups)
    have big: "(tf > 256) \<longleftrightarrow> N > 256"
      by (simp add: word_less_nat_alt utf)
    show ?thesis
    proof (cases "N > 256")
      case True
      with False show ?thesis by (simp add: unfold z le big)
    next
      case nsmall: False
      then have u16: "unat (ucast tf :: 16 word) = N"
        by (simp add: unsigned_ucast_eq utf take_bit_nat_eq_self)
      have N1: "0 < N"
        using mlt M0 by (simp add: N_def M_def specTotalFrags_def div_greater_zero_iff)
      show ?thesis
      proof (cases "M > 65535")
        case True
        then have b: "65535 < unat mf" by (simp add: M_def)
        have "[0..<N] = 0 # [1..<N]" using N1 by (simp add: upt_conv_Cons)
        then have "fragLoop h p mf ps tf [0..<unat (ucast tf :: 16 word)] [] []
                     = Inl PayloadTooLarge"
          using fragLoop_too_large [OF M0 mlt L ups b] by (simp add: u16)
        with False nsmall True show ?thesis by (simp add: unfold z le big)
      next
        case notbig: False
        then have small: "unat mf \<le> 65535" by (simp add: M_def)
        have idx: "\<forall>i \<in> set [0..<N]. i * unat mf < length p \<and> i < 65536"
          using below_total [OF M0, of _ "length p"] nsmall by (auto simp: N_def M_def)
        have "fragLoop h p mf ps tf [0..<unat (ucast tf :: 16 word)] [] []
                = Inr (map (\<lambda>i. wireBytes (specFragHeader h p M N i) (specSlice p M i)) [0..<N],
                       map (specFragHeader h p M N) [0..<N])"
          using fragLoop_ok [OF M0 mlt L ups small idx, of h tf "[]" "[]"]
          by (simp add: u16 M_def)
        with False nsmall notbig show ?thesis by (simp add: unfold z le big)
      qed
    qed
  qed
  show ?thesis
    unfolding Let_def using goal by (simp only: M_def N_def mf_def)
qed


lemma concat_slices: "concat (map (specSlice p M) [0..<n]) = take (n * M) p"
proof (induction n)
  case 0
  then show ?case by simp
next
  case (Suc n)
  have "take (n * M) p @ take M (drop (n * M) p) = take (n * M + M) p"
    by (simp add: take_add)
  with Suc show ?case by (simp add: specSlice_def add.commute)
qed

lemma concat_all_slices:
  assumes "0 < M"
  shows "concat (map (specSlice p M) [0..<specTotalFrags (length p) M]) = p"
  using total_covers [OF assms, of "length p"] by (simp add: concat_slices)

lemma length_specSlice:
  assumes M: "0 < M" and i: "i < specTotalFrags (length p) M"
  shows "length (specSlice p M i) =
           (if Suc i < specTotalFrags (length p) M then M
            else length p - (specTotalFrags (length p) M - 1) * M)"
proof (cases "Suc i < specTotalFrags (length p) M")
  case True
  from below_total [OF M True] have "i * M + M < length p" by simp
  with True show ?thesis by (simp add: specSlice_def)
next
  case False
  with i have e: "specTotalFrags (length p) M - 1 = i" by simp
  from total_covers [OF M, of "length p"] i e
  have "length p \<le> Suc i * M"
    by (metis Suc_diff_1 gr_implies_not0 linorder_neqE_nat)
  then have "length p - i * M \<le> M" by simp
  with False e show ?thesis by (simp add: specSlice_def)
qed

lemma length_specSlice_le: "length (specSlice p M i) \<le> M"
  by (simp add: specSlice_def)

lemma specFragHeader_fields:
  assumes "i < N" and "N \<le> 256" and "M \<le> 65535"
  shows "unat (FragID (specFragHeader h p M N i)) = i"
    and "unat (TotalFrags (specFragHeader h p M N i)) = N"
    and "unat (PayloadLen (specFragHeader h p M N i)) = length (specSlice p M i)"
    and "Flags (specFragHeader h p M N i) = Flags h OR FlagFragment"
  using assms length_specSlice_le [of p M i]
  by (simp_all add: specFragHeader_def unat_of_nat)

lemma small_mtu:
  fixes mtu :: "64 word"
  assumes lt: "mtu < 28"
  shows "unat (mtu - 24 - 4) = unat mtu + 2 ^ 64 - 28" and "mtu \<noteq> 28"
proof -
  from lt have u: "unat mtu < 28" by (simp add: word_less_nat_alt)
  have "unat (mtu - 24 - 4) = (if 28 \<le> unat mtu then unat mtu - 28 else unat mtu + 2 ^ 64 - 28)"
    by (rule unat_maxFrag)
  moreover from u have "\<not> 28 \<le> unat mtu" by simp
  ultimately show "unat (mtu - 24 - 4) = unat mtu + 2 ^ 64 - 28"
    by (simp only: if_False)
  from lt show "mtu \<noteq> 28" by auto
qed

lemma FragmentPacket_small_mtu:
  fixes mtu :: "64 word"
  assumes L: "length p < 2 ^ 63" and lt: "mtu < 28"
  shows "FragmentPacket h p mtu = Inr None"
proof -
  define M where "M = unat (mtu - 24 - 4)"
  have "M = unat mtu + 2 ^ 64 - 28" unfolding M_def using lt by (rule small_mtu)
  with L have le: "length p \<le> M" by simp
  have ne: "mtu \<noteq> 28" using lt by (rule small_mtu)
  have "FragmentPacket h p mtu =
     (let M = unat (mtu - 24 - 4); N = specTotalFrags (length p) M
      in if mtu = 28 then Inl MTUTooSmall
         else if length p \<le> M then Inr None
         else if N > 256 then Inl TooManyFragments
         else if M > 65535 then Inl PayloadTooLarge
         else Inr (Some (map (\<lambda>i. wireBytes (specFragHeader h p M N i) (specSlice p M i)) [0..<N],
                         map (specFragHeader h p M N) [0..<N])))"
    using L by (rule FragmentPacket_cases)
  then show ?thesis
    unfolding Let_def M_def [symmetric] using le ne by (simp only: if_False if_True)
qed

lemma FragmentPacket_MTUTooSmall:
  assumes L: "length p < 2 ^ 63"
  shows "FragmentPacket h p mtu = Inl MTUTooSmall \<longleftrightarrow> mtu = 28"
proof -
  define M where "M = unat (mtu - 24 - 4)"
  define N where "N = specTotalFrags (length p) M"
  have "FragmentPacket h p mtu =
     (let M = unat (mtu - 24 - 4); N = specTotalFrags (length p) M
      in if mtu = 28 then Inl MTUTooSmall
         else if length p \<le> M then Inr None
         else if N > 256 then Inl TooManyFragments
         else if M > 65535 then Inl PayloadTooLarge
         else Inr (Some (map (\<lambda>i. wireBytes (specFragHeader h p M N i) (specSlice p M i)) [0..<N],
                         map (specFragHeader h p M N) [0..<N])))"
    using L by (rule FragmentPacket_cases)
  then have "FragmentPacket h p mtu =
     (if mtu = 28 then Inl MTUTooSmall
         else if length p \<le> M then Inr None
         else if N > 256 then Inl TooManyFragments
         else if M > 65535 then Inl PayloadTooLarge
         else Inr (Some (map (\<lambda>i. wireBytes (specFragHeader h p M N i) (specSlice p M i)) [0..<N],
                         map (specFragHeader h p M N) [0..<N])))"
    unfolding Let_def M_def [symmetric] N_def [symmetric] .
  then show ?thesis by simp
qed

text \<open>
  C10. The guard of \<open>FragmentPacket\<close> against small MTUs is incomplete: \<open>mtu\<close> is
  unsigned, so for every MTU below 28 the difference \<open>mtu - 24 - 4\<close> wraps round to
  \<open>mtu + 2^64 - 28\<close>, which exceeds the length of any payload, and the call returns
  "no fragmentation needed" whatever the payload; the error "MTU too small" is returned
  at MTU = 28 and nowhere else.
\<close>

theorem C10_small_mtu_wraps:
  fixes mtu :: "64 word"
  assumes "length p < 2 ^ 63"
  shows "(mtu < 28 \<longrightarrow>
            unat (mtu - 24 - 4) = unat mtu + 2 ^ 64 - 28
            \<and> length p < unat (mtu - 24 - 4)
            \<and> FragmentPacket h p mtu = Inr None)
         \<and> (FragmentPacket h p mtu = Inl MTUTooSmall \<longleftrightarrow> mtu = 28)"
proof -
  have "unat (mtu - 24 - 4) = unat mtu + 2 ^ 64 - 28
          \<and> length p < unat (mtu - 24 - 4) \<and> FragmentPacket h p mtu = Inr None"
    if lt: "mtu < 28"
  proof -
    have w: "unat (mtu - 24 - 4) = unat mtu + 2 ^ 64 - 28" using lt by (rule small_mtu)
    define M where "M = unat (mtu - 24 - 4)"
    from w have "M = unat mtu + 2 ^ 64 - 28" by (simp only: M_def)
    with assms have "length p < M" by simp
    then have "length p < unat (mtu - 24 - 4)" by (simp only: M_def)
    with w FragmentPacket_small_mtu [OF assms lt, of h] show ?thesis by blast
  qed
  with FragmentPacket_MTUTooSmall [OF assms, of h mtu] show ?thesis by blast
qed

theorem C10_small_mtu_wraps_witness:
  "length (replicate 70000 (0 :: byte)) < 2 ^ 63
   \<and> (27 :: 64 word) < 28
   \<and> unat ((27 :: 64 word) - 24 - 4) = 2 ^ 64 - 1
   \<and> FragmentPacket sampleHeader (replicate 70000 0) 27 = Inr None
   \<and> FragmentPacket sampleHeader (replicate 70000 0) 27 \<noteq> Inl MTUTooSmall"
  using C10_small_mtu_wraps [of "replicate 70000 0" 27 sampleHeader] by simp

lemma fragments_ok:
  assumes M: "0 < M" and lt: "M < length p" and N: "N = specTotalFrags (length p) M"
    and n256: "N \<le> 256" and m16: "M \<le> 65535"
    and frags: "frags = map (\<lambda>i. wireBytes (specFragHeader h p M N i) (specSlice p M i)) [0..<N]"
    and hdrs: "hdrs = map (specFragHeader h p M N) [0..<N]"
  shows "length frags = N" and "length hdrs = N"
    and "concat (map (\<lambda>i. take M (drop (i * M) p)) [0..<N]) = p"
    and "\<forall>i<N. hdrs ! i = h\<lparr> Flags := Flags h OR FlagFragment, FragID := of_nat i,
                              TotalFrags := of_nat N,
                              PayloadLen := of_nat (length (take M (drop (i * M) p))) \<rparr>
               \<and> unat (FragID (hdrs ! i)) = i
               \<and> unat (TotalFrags (hdrs ! i)) = N
               \<and> unat (PayloadLen (hdrs ! i)) = length (take M (drop (i * M) p))
               \<and> length (take M (drop (i * M) p))
                    = (if i + 1 < N then M else length p - (N - 1) * M)
               \<and> Serialize (hdrs ! i) (take M (drop (i * M) p)) = Inr (frags ! i)
               \<and> frags ! i = headerBuf (hdrs ! i) @ take M (drop (i * M) p)
                    @ PutUint32 (ComputeCRC32 (headerBuf (hdrs ! i) @ take M (drop (i * M) p)))"
proof -
  show "length frags = N" "length hdrs = N" by (simp_all add: frags hdrs)
  have "concat (map (specSlice p M) [0..<N]) = p"
    unfolding N using M by (rule concat_all_slices)
  then show "concat (map (\<lambda>i. take M (drop (i * M) p)) [0..<N]) = p"
    by (simp add: specSlice_def [abs_def])
  show "\<forall>i<N. hdrs ! i = h\<lparr> Flags := Flags h OR FlagFragment, FragID := of_nat i,
                              TotalFrags := of_nat N,
                              PayloadLen := of_nat (length (take M (drop (i * M) p))) \<rparr>
               \<and> unat (FragID (hdrs ! i)) = i
               \<and> unat (TotalFrags (hdrs ! i)) = N
               \<and> unat (PayloadLen (hdrs ! i)) = length (take M (drop (i * M) p))
               \<and> length (take M (drop (i * M) p))
                    = (if i + 1 < N then M else length p - (N - 1) * M)
               \<and> Serialize (hdrs ! i) (take M (drop (i * M) p)) = Inr (frags ! i)
               \<and> frags ! i = headerBuf (hdrs ! i) @ take M (drop (i * M) p)
                    @ PutUint32 (ComputeCRC32 (headerBuf (hdrs ! i) @ take M (drop (i * M) p)))"
  proof (intro allI impI)
    fix i assume i: "i < N"
    let ?s = "take M (drop (i * M) p)"
    have s: "specSlice p M i = ?s" by (simp add: specSlice_def)
    have hi: "hdrs ! i = specFragHeader h p M N i" using i by (simp add: hdrs)
    have fi: "frags ! i = wireBytes (specFragHeader h p M N i) ?s" using i by (simp add: frags s)
    have f1: "hdrs ! i = h\<lparr> Flags := Flags h OR FlagFragment, FragID := of_nat i,
                              TotalFrags := of_nat N, PayloadLen := of_nat (length ?s) \<rparr>"
      by (simp only: hi specFragHeader_def s)
    have f2: "unat (FragID (hdrs ! i)) = i" "unat (TotalFrags (hdrs ! i)) = N"
      using specFragHeader_fields(1,2) [OF i n256 m16, of h p] by (simp_all only: hi)
    have f3: "unat (PayloadLen (hdrs ! i)) = length ?s"
      using specFragHeader_fields(3) [OF i n256 m16, of h p] by (simp only: hi s)
    have f4: "length ?s = (if i + 1 < N then M else length p - (N - 1) * M)"
      using length_specSlice [OF M, of i p] i by (simp only: s N [symmetric] Suc_eq_plus1)
    have small: "\<not> length ?s > 65535" using m16 by simp
    have f5: "Serialize (hdrs ! i) ?s = Inr (frags ! i)"
      using small by (simp only: Serialize_wire fi hi if_False)
    have f6: "frags ! i = headerBuf (hdrs ! i) @ ?s
                 @ PutUint32 (ComputeCRC32 (headerBuf (hdrs ! i) @ ?s))"
      by (simp only: fi hi wireBytes_def)
    from f1 f2 f3 f4 f5 f6
    show "hdrs ! i = h\<lparr> Flags := Flags h OR FlagFragment, FragID := of_nat i,
                              TotalFrags := of_nat N,
                              PayloadLen := of_nat (length (take M (drop (i * M) p))) \<rparr>
               \<and> unat (FragID (hdrs ! i)) = i
               \<and> unat (TotalFrags (hdrs ! i)) = N
               \<and> unat (PayloadLen (hdrs ! i)) = length (take M (drop (i * M) p))
               \<and> length (take M (drop (i * M) p))
                    = (if i + 1 < N then M else length p - (N - 1) * M)
               \<and> Serialize (hdrs ! i) (take M (drop (i * M) p)) = Inr (frags ! i)
               \<and> frags ! i = headerBuf (hdrs ! i) @ take M (drop (i * M) p)
                    @ PutUint32 (ComputeCRC32 (headerBuf (hdrs ! i) @ take M (drop (i * M) p)))"
      by blast
  qed
qed

text \<open>
  C6 (as amended). For a payload \<open>p\<close> (a Go slice, so shorter than 2^63 bytes), with
  \<open>M = mtu - 24 - 4\<close> computed in 64-bit unsigned arithmetic and
  \<open>N = ceil(len(p) / M)\<close>: \<open>FragmentPacket\<close> fails with "MTU too small" when the MTU
  is 28; otherwise it returns "no fragmentation needed" when \<open>len(p) \<le> M\<close>; otherwise
  it fails with "too many fragments" when \<open>N > 256\<close>; otherwise it fails with "payload
  too large" when \<open>M > 65535\<close> (the first slice does not fit a packet); otherwise it
  returns \<open>N\<close> fragments and \<open>N\<close> headers. Header \<open>i\<close> is \<open>h\<close> with the FRAG flag
  added, \<open>frag_id = i\<close>, \<open>total_frags = N\<close> and \<open>payload_len\<close> the size of slice
  \<open>i\<close>, which is the \<open>i\<close>-th run of \<open>M\<close> bytes of \<open>p\<close>, of size \<open>M\<close> except for
  the last one, which is the remainder; the slices put together give \<open>p\<close>; and
  fragment \<open>i\<close> is the output of \<open>Serialize\<close> on header \<open>i\<close> and slice \<open>i\<close>: header
  bytes, slice, and the CRC32 of the two.
\<close>

theorem C6_FragmentPacket:
  fixes mtu :: "64 word"
  assumes L: "length p < 2 ^ 63"
  shows "let M = unat (mtu - 24 - 4); N = (length p + M - 1) div M in
     (mtu = 28 \<longrightarrow> FragmentPacket h p mtu = Inl MTUTooSmall)
   \<and> (mtu \<noteq> 28 \<and> length p \<le> M \<longrightarrow> FragmentPacket h p mtu = Inr None)
   \<and> (mtu \<noteq> 28 \<and> M < length p \<and> 256 < N \<longrightarrow> FragmentPacket h p mtu = Inl TooManyFragments)
   \<and> (mtu \<noteq> 28 \<and> M < length p \<and> N \<le> 256 \<and> 65535 < M \<longrightarrow>
        FragmentPacket h p mtu = Inl PayloadTooLarge)
   \<and> (mtu \<noteq> 28 \<and> M < length p \<and> N \<le> 256 \<and> M \<le> 65535 \<longrightarrow>
        (\<exists>frags hdrs.
           FragmentPacket h p mtu = Inr (Some (frags, hdrs))
           \<and> length frags = N \<and> length hdrs = N
           \<and> concat (map (\<lambda>i. take M (drop (i * M) p)) [0..<N]) = p
           \<and> (\<forall>i<N. hdrs ! i = h\<lparr> Flags := Flags h OR FlagFragment, FragID := of_nat i,
                                     TotalFrags := of_nat N,
                                     PayloadLen := of_nat (length (take M (drop (i * M) p))) \<rparr>
                 \<and> unat (FragID (hdrs ! i)) = i
                 \<and> unat (TotalFrags (hdrs ! i)) = N
                 \<and> unat (PayloadLen (hdrs ! i)) = length (take M (drop (i * M) p))
                 \<and> length (take M (drop (i * M) p))
                      = (if i + 1 < N then M else length p - (N - 1) * M)
                 \<and> Serialize (hdrs ! i) (take M (drop (i * M) p)) = Inr (frags ! i)
                 \<and> frags ! i = headerBuf (hdrs ! i) @ take M (drop (i * M) p)
                      @ PutUint32 (ComputeCRC32
                                     (headerBuf (hdrs ! i) @ take M (drop (i * M) p))))))"
proof -
  define M where "M = unat (mtu - 24 - 4)"
  define N where "N = (length p + M - 1) div M"
  have Ns: "N = specTotalFrags (length p) M" by (simp add: N_def specTotalFrags_def)
  have "FragmentPacket h p mtu =
     (let M = unat (mtu - 24 - 4); N = specTotalFrags (length p) M
      in if mtu = 28 then Inl MTUTooSmall
         else if length p \<le> M then Inr None
         else if N > 256 then Inl TooManyFragments
         else if M > 65535 then Inl PayloadTooLarge
         else Inr (Some (map (\<lambda>i. wireBytes (specFragHeader h p M N i) (specSlice p M i)) [0..<N],
                         map (specFragHeader h p M N) [0..<N])))"
    using L by (rule FragmentPacket_cases)
  then have c: "FragmentPacket h p mtu =
     (if mtu = 28 then Inl MTUTooSmall
         else if length p \<le> M then Inr None
         else if N > 256 then Inl TooManyFragments
         else if M > 65535 then Inl PayloadTooLarge
         else Inr (Some (map (\<lambda>i. wireBytes (specFragHeader h p M N i) (specSlice p M i)) [0..<N],
                         map (specFragHeader h p M N) [0..<N])))"
    unfolding Let_def M_def [symmetric] Ns [symmetric] .
  have c1: "mtu = 28 \<longrightarrow> FragmentPacket h p mtu = Inl MTUTooSmall"
  proof
    assume e: "mtu = 28"
    show "FragmentPacket h p mtu = Inl MTUTooSmall"
      by (subst c) (simp add: e)
  qed
  have c2: "mtu \<noteq> 28 \<and> length p \<le> M \<longrightarrow> FragmentPacket h p mtu = Inr None"
    by (simp add: c)
  have c3: "mtu \<noteq> 28 \<and> M < length p \<and> 256 < N \<longrightarrow> FragmentPacket h p mtu = Inl TooManyFragments"
    by (simp add: c)
  have c4: "mtu \<noteq> 28 \<and> M < length p \<and> N \<le> 256 \<and> 65535 < M \<longrightarrow>
              FragmentPacket h p mtu = Inl PayloadTooLarge"
    by (simp add: c)
  have c5: "mtu \<noteq> 28 \<and> M < length p \<and> N \<le> 256 \<and> M \<le> 65535 \<longrightarrow>
        (\<exists>frags hdrs.
           FragmentPacket h p mtu = Inr (Some (frags, hdrs))
           \<and> length frags = N \<and> length hdrs = N
           \<and> concat (map (\<lambda>i. take M (drop (i * M) p)) [0..<N]) = p
           \<and> (\<forall>i<N. hdrs ! i = h\<lparr> Flags := Flags h OR FlagFragment, FragID := of_nat i,
                                     TotalFrags := of_nat N,
                                     PayloadLen := of_nat (length (take M (drop (i * M) p))) \<rparr>
                 \<and> unat (FragID (hdrs ! i)) = i
                 \<and> unat (TotalFrags (hdrs ! i)) = N
                 \<and> unat (PayloadLen (hdrs ! i)) = length (take M (drop (i * M) p))
                 \<and> length (take M (drop (i * M) p))
                      = (if i + 1 < N then M else length p - (N - 1) * M)
                 \<and> Serialize (hdrs ! i) (take M (drop (i * M) p)) = Inr (frags ! i)
                 \<and> frags ! i = headerBuf (hdrs ! i) @ take M (drop (i * M) p)
                      @ PutUint32 (ComputeCRC32
                                     (headerBuf (hdrs ! i) @ take M (drop (i * M) p)))))"
  proof (intro impI)
    assume a: "mtu \<noteq> 28 \<and> M < length p \<and> N \<le> 256 \<and> M \<le> 65535"
    define frags where
      "frags = map (\<lambda>i. wireBytes (specFragHeader h p M N i) (specSlice p M i)) [0..<N]"
    define hdrs where "hdrs = map (specFragHeader h p M N) [0..<N]"
    have "mtu - 24 - 4 \<noteq> 0" using a by simp
    then have M0: "0 < M" unfolding M_def unat_gt_0 .
    from a have lt: "M < length p" and n256: "N \<le> 256" and m16: "M \<le> 65535" by simp_all
    have r: "FragmentPacket h p mtu = Inr (Some (frags, hdrs))"
      using a by (simp add: c frags_def hdrs_def)
    from r fragments_ok [OF M0 lt Ns n256 m16 frags_def hdrs_def]
    show "\<exists>frags hdrs.
           FragmentPacket h p mtu = Inr (Some (frags, hdrs))
           \<and> length frags = N \<and> length hdrs = N
           \<and> concat (map (\<lambda>i. take M (drop (i * M) p)) [0..<N]) = p
           \<and> (\<forall>i<N. hdrs ! i = h\<lparr> Flags := Flags h OR FlagFragment, FragID := of_nat i,
                                     TotalFrags := of_nat N,
                                     PayloadLen := of_nat (length (take M (drop (i * M) p))) \<rparr>
                 \<and> unat (FragID (hdrs ! i)) = i
                 \<and> unat (TotalFrags (hdrs ! i)) = N
                 \<and> unat (PayloadLen (hdrs ! i)) = length (take M (drop (i * M) p))
                 \<and> length (take M (drop (i * M) p))
                      = (if i + 1 < N then M else length p - (N - 1) * M)
                 \<and> Serialize (hdrs ! i) (take M (drop (i * M) p)) = Inr (frags ! i)
                 \<and> frags ! i = headerBuf (hdrs ! i) @ take M (drop (i * M) p)
                      @ PutUint32 (ComputeCRC32
                                     (headerBuf (hdrs ! i) @ take M (drop (i * M) p))))"
      by blast
  qed
  from c1 c2 c3 c4 c5 show ?thesis
    unfolding Let_def M_def [symmetric] N_def [symmetric] by blast
qed

theorem C6_FragmentPacket_witness:
  "length xPayload < 2 ^ 63 \<and> (100 :: 64 word) \<noteq> 28
   \<and> unat ((100 :: 64 word) - 24 - 4) = 72 \<and> 72 < length xPayload
   \<and> (length xPayload + 72 - 1) div 72 = 5
   \<and> (\<exists>frags hdrs.
         FragmentPacket sampleHeader xPayload 100 = Inr (Some (frags, hdrs))
         \<and> length frags = 5 \<and> length hdrs = 5
         \<and> unat (PayloadLen (hdrs ! 0)) = 72 \<and> unat (PayloadLen (hdrs ! 1)) = 72
         \<and> unat (PayloadLen (hdrs ! 2)) = 72 \<and> unat (PayloadLen (hdrs ! 3)) = 72
         \<and> unat (PayloadLen (hdrs ! 4)) = 12
         \<and> unat (FragID (hdrs ! 4)) = 4 \<and> unat (TotalFrags (hdrs ! 4)) = 5
         \<and> Serialize (hdrs ! 4) (replicate 12 0x58) = Inr (frags ! 4))"
proof -
  have l: "length xPayload < 2 ^ 63" by (simp add: xPayload_def)
  have m: "unat ((100 :: 64 word) - 24 - 4) = 72" by simp
  have n: "(length xPayload + 72 - 1) div 72 = 5" by (simp add: xPayload_def)
  have lt: "72 < length xPayload" by (simp add: xPayload_def)
  have s4: "take 72 (drop (4 * 72) xPayload) = replicate 12 0x58" by (simp add: xPayload_def)
  have len: "length xPayload = 300" by (simp add: xPayload_def)
  from C6_FragmentPacket [OF l, of 100 sampleHeader]
  obtain frags hdrs where
    r: "FragmentPacket sampleHeader xPayload 100 = Inr (Some (frags, hdrs))"
    and lf: "length frags = 5" and lh: "length hdrs = 5"
    and a: "\<forall>i<5. unat (FragID (hdrs ! i)) = i
                 \<and> unat (TotalFrags (hdrs ! i)) = 5
                 \<and> unat (PayloadLen (hdrs ! i)) = length (take 72 (drop (i * 72) xPayload))
                 \<and> Serialize (hdrs ! i) (take 72 (drop (i * 72) xPayload)) = Inr (frags ! i)"
    unfolding Let_def m n using lt by auto
  from a have "unat (PayloadLen (hdrs ! 0)) = 72" "unat (PayloadLen (hdrs ! 1)) = 72"
    "unat (PayloadLen (hdrs ! 2)) = 72" "unat (PayloadLen (hdrs ! 3)) = 72"
    "unat (PayloadLen (hdrs ! 4)) = 12"
    "unat (FragID (hdrs ! 4)) = 4" "unat (TotalFrags (hdrs ! 4)) = 5"
    by (simp_all add: len)
  moreover have "Serialize (hdrs ! 4) (replicate 12 0x58) = Inr (frags ! 4)"
  proof -
    have "(4 :: nat) < 5" by simp
    with a have "Serialize (hdrs ! 4) (take 72 (drop (4 * 72) xPayload)) = Inr (frags ! 4)"
      by blast
    then show ?thesis by (simp only: s4)
  qed
  ultimately have ex: "\<exists>frags hdrs.
         FragmentPacket sampleHeader xPayload 100 = Inr (Some (frags, hdrs))
         \<and> length frags = 5 \<and> length hdrs = 5
         \<and> unat (PayloadLen (hdrs ! 0)) = 72 \<and> unat (PayloadLen (hdrs ! 1)) = 72
         \<and> unat (PayloadLen (hdrs ! 2)) = 72 \<and> unat (PayloadLen (hdrs ! 3)) = 72
         \<and> unat (PayloadLen (hdrs ! 4)) = 12
         \<and> unat (FragID (hdrs ! 4)) = 4 \<and> unat (TotalFrags (hdrs ! 4)) = 5
         \<and> Serialize (hdrs ! 4) (replicate 12 0x58) = Inr (frags ! 4)"
    using r lf lh by blast
  have ne: "(100 :: 64 word) \<noteq> 28" by simp
  from l ne m lt n ex show ?thesis by (intro conjI)
qed

text \<open>
  C6 as stated fails. At MTU 28 the empty payload fits \<open>max_frag = 0\<close>, yet the call
  fails with "MTU too small"; at MTU 65564 a payload of 65537 bytes needs
  \<open>N = 2 \<le> 256\<close> fragments of at most 65536 bytes, yet the call fails with "payload
  too large" and produces none.
\<close>

theorem C6_counterexample:
  "unat ((28 :: 64 word) - 24 - 4) = 0
   \<and> length ([] :: byte list) \<le> unat ((28 :: 64 word) - 24 - 4)
   \<and> FragmentPacket sampleHeader [] 28 = Inl MTUTooSmall
   \<and> unat ((65564 :: 64 word) - 24 - 4) = 65536
   \<and> 65536 < length longPayload
   \<and> (length longPayload + 65536 - 1) div 65536 = 2
   \<and> FragmentPacket sampleHeader longPayload 65564 = Inl PayloadTooLarge"
proof -
  have a: "FragmentPacket sampleHeader [] 28 = Inl MTUTooSmall"
    using FragmentPacket_cases [of "[]" sampleHeader 28] by (simp add: Let_def)
  have l: "length longPayload < 2 ^ 63" by (simp add: longPayload_def)
  have b: "FragmentPacket sampleHeader longPayload 65564 = Inl PayloadTooLarge"
    using FragmentPacket_cases [OF l, of sampleHeader 65564]
    by (simp add: Let_def specTotalFrags_def longPayload_def)
  show ?thesis by (simp add: a b) (simp add: longPayload_def)
qed

section \<open>Properties of the send pipeline\<close>

lemma length_wireBytes [simp]: "length (wireBytes h p) = 24 + length p + 4"
  by (simp add: wireBytes_def)

lemma wireBytes_seq: "Uint32 (wireBytes h p) 10 = Seq h"
  by (simp add: wireBytes_def header_fields)

lemma UDPSend_ok:
  "length p \<le> 65535 \<Longrightarrow>
     UDPSend h p None = (Inr (24 + length p + 4), [UDPWrite (wireBytes h p)])"
  by (simp add: UDPSend_def Serialize_wire)

text \<open>
  C3 (what the code does instead). \<open>Send\<close> with protocol UDP and the RELIABLE flag, on an
  initialised library and a UDP socket, is the plain \<open>UDPSend\<close> of the stamped header:
  one datagram written to the socket, carrying sequence number 0. \<open>Send\<close> has no
  \<open>ReliableContext\<close> to enqueue the packet in; the branch for the flag and the branch
  without it are the same call.
\<close>

theorem C3_Send_reliable_is_plain_udp:
  "Send sampleEnv UDPConn 1 OpData ProtoUDP samplePayload FlagReliable
     = UDPSend reliableHeader samplePayload None
   \<and> Send sampleEnv UDPConn 1 OpData ProtoUDP samplePayload FlagReliable
     = (Inr 32, [UDPWrite (wireBytes reliableHeader samplePayload)])
   \<and> Flags reliableHeader AND FlagReliable \<noteq> 0
   \<and> Seq reliableHeader = 0
   \<and> Uint32 (wireBytes reliableHeader samplePayload) 10 = 0"
proof -
  have u: "UDPSend reliableHeader samplePayload None
             = (Inr 32, [UDPWrite (wireBytes reliableHeader samplePayload)])"
    using UDPSend_ok [of samplePayload reliableHeader] by (simp add: samplePayload_def)
  have d: "sendDispatch sampleEnv UDPConn 1 OpData ProtoUDP samplePayload FlagReliable
             = UDPSend reliableHeader samplePayload None"
    by (simp add: sendDispatch_def SafeIntToUint16_def SafeInt64ToUint32_def NewPacketHeader_def
          sampleEnv_def samplePayload_def reliableHeader_def ProtoUDP_def ProtoTCP_def
          FlagReliable_def OpData_def)
  have s: "Send sampleEnv UDPConn 1 OpData ProtoUDP samplePayload FlagReliable
             = sendDispatch sampleEnv UDPConn 1 OpData ProtoUDP samplePayload FlagReliable"
    by (simp add: Send_def sampleEnv_def samplePayload_def CompressThreshold_def
          FlagReliable_def FlagEncrypted_def)
  have f: "Flags reliableHeader AND FlagReliable \<noteq> 0" "Seq reliableHeader = 0"
    by (simp_all add: reliableHeader_def FlagReliable_def)
  show ?thesis
    by (simp only: s d u f wireBytes_seq) simp
qed

section \<open>Properties of the TCP receive state machine\<close>

lemma tcpReady_idle:
  assumes "tcpReady c s = (r, c', s')" and "r \<noteq> Inl Panic"
  shows "recvState c' = StateIdle"
  using assms by (auto simp: tcpReady_def split: if_splits sum.splits)

lemma tcpReadingCRC_idle:
  assumes "tcpReadingCRC c s = (r, c', s')" and "r \<noteq> Inl Panic"
  shows "recvState c' = StateIdle"
  using assms unfolding tcpReadingCRC_def Let_def
  by (auto split: if_splits prod.splits option.splits dest: tcpReady_idle)

lemma tcpReadingPayload_idle:
  assumes "tcpReadingPayload c s = (r, c', s')" and "r \<noteq> Inl Panic"
  shows "recvState c' = StateIdle"
  using assms unfolding tcpReadingPayload_def Let_def
  by (auto split: if_splits prod.splits option.splits dest: tcpReadingCRC_idle)

lemma tcpHeaderDone_idle:
  assumes "tcpHeaderDone c s = (r, c', s')" and "r \<noteq> Inl Panic"
  shows "recvState c' = StateIdle"
  using assms unfolding tcpHeaderDone_def Let_def
  by (auto split: if_splits dest: tcpReadingPayload_idle)

lemma tcpReadingHeader_idle:
  assumes "tcpReadingHeader c s = (r, c', s')" and "r \<noteq> Inl Panic"
  shows "recvState c' = StateIdle"
  using assms unfolding tcpReadingHeader_def Let_def
  by (auto split: if_splits prod.splits option.splits dest: tcpHeaderDone_idle)

lemma TCPRecv_idle:
  assumes "TCPRecv c s = (r, c', s')" and "r \<noteq> Inl Panic"
  shows "recvState c' = StateIdle"
  using assms unfolding TCPRecv_def tcpIdle_def
  by (auto split: TCPRecvState.splits
        dest: tcpReadingHeader_idle tcpReadingPayload_idle tcpReadingCRC_idle tcpReady_idle)

lemma TCPRecv_from_idle:
  assumes "recvState c = StateIdle"
  shows "TCPRecv c s = TCPRecv NewTCPConnection s"
  using assms by (cases c) (simp add: TCPRecv_def tcpIdle_def NewTCPConnection_def)

text \<open>
  C9 (as amended). When a \<open>TCPRecv\<close> call ends with an error, in particular when a
  socket read fails in the middle of a frame, the connection is left in state \<open>Idle\<close>,
  not in the state it was reading in; and the next call behaves on every socket exactly
  as a call on a new connection does: it starts a fresh 24-byte header read with
  \<open>bytes_read = 0\<close>, so nothing of the interrupted frame is kept.
\<close>

theorem C9_error_resets_to_idle:
  assumes "TCPRecv conn sock = (Inl e, conn', sock')" and "e \<noteq> Panic"
  shows "recvState conn' = StateIdle
         \<and> TCPRecv conn' sock'' = TCPRecv NewTCPConnection sock''"
proof -
  from assms have "recvState conn' = StateIdle"
    using TCPRecv_idle [of conn sock "Inl e" conn' sock'] by simp
  then show ?thesis using TCPRecv_from_idle [of conn' sock''] by simp
qed

lemma length_sampleFrame: "length sampleFrame = 32"
  by (simp add: sampleFrame_def samplePayload_def)

lemma sampleFrame_pieces: "sampleFrame \<noteq> []"
  "take 10 sampleFrame \<noteq> []" "drop 10 sampleFrame \<noteq> []"
  "length (take 10 sampleFrame) = 10" "length (drop 10 sampleFrame) = 22"
  using length_sampleFrame by auto

lemma TCPRecv_interrupted:
  "TCPRecv NewTCPConnection interruptedSock
     = (Inl (IOError 1), interruptedConn, [Bytes (drop 10 sampleFrame)])"
  by (simp add: TCPRecv_def tcpIdle_def tcpReadingHeader_def readInto_def NewTCPConnection_def
        interruptedSock_def interruptedConn_def HeaderSize_def sampleFrame_pieces
        length_sampleFrame)

lemma TCPRecv_after_interrupt:
  "fst (TCPRecv interruptedConn [Bytes (drop 10 sampleFrame)]) = Inl Eof"
  by (simp add: TCPRecv_def tcpIdle_def tcpReadingHeader_def readInto_def
        interruptedConn_def HeaderSize_def sampleFrame_pieces length_sampleFrame)

theorem C9_error_resets_to_idle_witness:
  "TCPRecv NewTCPConnection interruptedSock
     = (Inl (IOError 1), interruptedConn, [Bytes (drop 10 sampleFrame)])
   \<and> IOError 1 \<noteq> Panic
   \<and> recvState interruptedConn = StateIdle
   \<and> TCPRecv interruptedConn [Bytes (drop 10 sampleFrame)]
        = TCPRecv NewTCPConnection [Bytes (drop 10 sampleFrame)]"
  using C9_error_resets_to_idle [OF TCPRecv_interrupted, of "[Bytes (drop 10 sampleFrame)]"]
    TCPRecv_interrupted by simp

text \<open>
  C9 as stated fails. The first ten bytes of a frame arrive, then a read fails: the call
  leaves the connection in \<open>Idle\<close> with \<open>bytes_read = 0\<close>, not in \<open>ReadingHeader\<close> with
  ten bytes counted; and the next call, given the remaining 22 bytes of the frame, does
  not complete the frame but takes them for the start of a new header and ends with
  \<open>io.EOF\<close>.
\<close>

theorem C9_counterexample:
  "fst (TCPRecv NewTCPConnection interruptedSock) = Inl (IOError 1)
   \<and> recvState (fst (snd (TCPRecv NewTCPConnection interruptedSock))) = StateIdle
   \<and> recvState (fst (snd (TCPRecv NewTCPConnection interruptedSock))) \<noteq> StateReadingHeader
   \<and> recvBytesRead (fst (snd (TCPRecv NewTCPConnection interruptedSock))) = 0
   \<and> snd (snd (TCPRecv NewTCPConnection interruptedSock)) = [Bytes (drop 10 sampleFrame)]
   \<and> fst (TCPRecv (fst (snd (TCPRecv NewTCPConnection interruptedSock)))
                   (snd (snd (TCPRecv NewTCPConnection interruptedSock)))) = Inl Eof"
  by (simp add: TCPRecv_interrupted TCPRecv_after_interrupt) (simp add: interruptedConn_def)

section \<open>Properties of the reliable layer\<close>











end
